theory Spec2Isabelle
  imports Main "HOL-Library.Multiset"
begin

section \<open>The outside world of the exporter\<close>

text \<open>
  The exporter is a sequential client of a remote REST API and of the file system.
  Everything it cannot compute itself is an oracle of the environment: what the identity
  endpoint answers, what each asset endpoint answers for given parameters, which paths the
  file system refuses, and what \<^verbatim>\<open>Date.now()\<close> reads.  A rejected \<^verbatim>\<open>axios.get\<close>
  (transport error or non-2xx status) is the value \<open>Failed\<close>; a fulfilled one carries
  \<^verbatim>\<open>response.data\<close>.  A JavaScript \<^verbatim>\<open>throw\<close> is the left injection of a sum, carrying
  the message of the \<^verbatim>\<open>Error\<close>.
\<close>

type_synonym message = string

record http_failure =
  status :: string
  statusText :: string
  error_description :: "string option"

record axios_error =
  err_message :: message
  err_response :: "http_failure option"

datatype 'a http = Failed axios_error | Response 'a

text \<open>\<^verbatim>\<open>response.data\<close> of the identity endpoint; \<open>None\<close> is an absent field.\<close>

record auth_body =
  access_token :: "string option"
  expires_in :: "int option"

text \<open>Truthiness of a JavaScript value that is a string, \<^verbatim>\<open>null\<close> or \<^verbatim>\<open>undefined\<close>.\<close>

fun truthy :: "string option \<Rightarrow> bool" where
  "truthy None = False"
| "truthy (Some s) = (s \<noteq> [])"

text \<open>
  \<^verbatim>\<open>path.join\<close> belongs to the platform and normalises what it joins, so it is a
  function of the environment.  \<open>slash_join\<close> is what it yields for a directory that is
  already normal, such as \<^verbatim>\<open>out\<close>, and a plain name.
\<close>

definition slash_join :: "string \<Rightarrow> string \<Rightarrow> string" where
  "slash_join a b = a @ ''/'' @ b"

section \<open>Data of the library client (\<^verbatim>\<open>src/lib/marketo-client.js\<close>, class \<^verbatim>\<open>MarketoClient\<close>)\<close>

record folder_ref =
  folder_id :: nat
  folder_value :: string
  folder_type :: string

text \<open>
  A template summary as the list endpoint serves it, with the nine fields the exporter
  copies into \<^verbatim>\<open>metadata.json\<close>.  The identifier is kept in the decimal form that
  template literals give it.
\<close>

record template =
  tid :: string
  tname :: string
  tstatus :: string
  createdAt :: string
  updatedAt :: string
  folder :: "folder_ref option"
  subject :: string
  fromName :: string
  fromEmail :: string

record list_body =
  success :: bool
  result :: "template list option"

record html_item =
  item_type :: string
  item_value :: string

text \<open>
  A content section: \<open>sec_value\<close> is \<open>Some\<close> exactly when \<^verbatim>\<open>section.value\<close> is an array.
\<close>

record content_section =
  sec_value :: "html_item list option"
  contentType :: "string option"
  content :: "string option"

record content_body =
  c_success :: bool
  c_result :: "content_section list"

record export_error =
  templateId :: string
  error :: message

record export_result =
  total :: nat
  successful :: nat
  failed :: nat
  errors :: "export_error list"

datatype file_content = Json template | Text string

text \<open>Every effect the client has on the outside world, in the order it happens.\<close>

datatype effect =
    Get_identity
  | Get_emails nat
  | Get_content string
  | Mkdir string
  | WriteFile string
  | Progress_count nat
  | Progress_results export_result

text \<open>
  \<^verbatim>\<open>this.tokenExpiry\<close>: \<^verbatim>\<open>null\<close> after construction, a number after a successful
  authentication, \<^verbatim>\<open>NaN\<close> when the identity response carried no \<^verbatim>\<open>expires_in\<close>.
\<close>

datatype expiry = Null | NaN | At int

record client =
  accessToken :: "string option"
  tokenExpiry :: expiry
  files :: "string \<rightharpoonup> file_content"
  dirs :: "string set"
  trace :: "effect list"

text \<open>
  The clock may advance with every effect: \<^verbatim>\<open>Date.now()\<close> is \<open>clock\<close> at the number of
  effects so far.  Times are in milliseconds.
\<close>

record lib_env =
  clock :: "nat \<Rightarrow> int"
  identity :: "auth_body option http"
  emails :: "nat \<Rightarrow> list_body http"
  content_api :: "string \<Rightarrow> content_body http"
  fs_error :: "string \<Rightarrow> message option"
  path_join :: "string \<Rightarrow> string \<Rightarrow> string"
  progressCallback :: bool

definition date_now :: "lib_env \<Rightarrow> client \<Rightarrow> int" where
  "date_now env w = clock env (length (trace w))"

section \<open>Token handling of the library client\<close>

text \<open>
  \<^verbatim>\<open>authenticate()\<close>: one request to the identity endpoint.  The error thrown for a body
  without token is thrown inside the \<^verbatim>\<open>try\<close> and so is wrapped like a transport error.
\<close>

definition authenticate :: "lib_env \<Rightarrow> client \<Rightarrow> (message + string) \<times> client" where
  "authenticate env w =
    (let w1 = w\<lparr>trace := trace w @ [Get_identity]\<rparr>;
         invalid = (Inl (''Authentication failed: '' @ ''Invalid authentication response''), w1)
     in case identity env of
          Failed e \<Rightarrow> (Inl (''Authentication failed: '' @ err_message e), w1)
        | Response None \<Rightarrow> invalid
        | Response (Some b) \<Rightarrow>
            if truthy (access_token b)
            then (case access_token b of
                    None \<Rightarrow> invalid
                  | Some tok \<Rightarrow>
                      (Inr tok,
                       w1\<lparr>accessToken := Some tok,
                          tokenExpiry :=
                            (case expires_in b of
                               None \<Rightarrow> NaN
                             | Some ttl \<Rightarrow> At (date_now env w1 + ttl * 1000))\<rparr>))
            else invalid)"

text \<open>\<^verbatim>\<open>Date.now() >= this.tokenExpiry - 5 * 60 * 1000\<close> with JavaScript's coercions.\<close>

fun stale :: "int \<Rightarrow> expiry \<Rightarrow> bool" where
  "stale now Null = (now \<ge> - (5 * 60 * 1000))"
| "stale now NaN = False"
| "stale now (At e) = (now \<ge> e - 5 * 60 * 1000)"

definition getAccessToken :: "lib_env \<Rightarrow> client \<Rightarrow> (message + string option) \<times> client" where
  "getAccessToken env w =
    (if \<not> truthy (accessToken w) \<or> stale (date_now env w) (tokenExpiry w)
     then (case authenticate env w of
             (Inl m, w1) \<Rightarrow> (Inl m, w1)
           | (Inr _, w1) \<Rightarrow> (Inr (accessToken w1), w1))
     else (Inr (accessToken w), w))"

section \<open>Token handling of the route code (\<^verbatim>\<open>getMarketoAccessToken\<close>)\<close>

datatype request =
    Identity_request
  | Folder_request nat
  | Emails_request nat
  | Full_content_request string
  | Content_request string

record session =
  marketoAccessToken :: "string option"
  marketoTokenExpiry :: "int option"
  requests :: "request list"

text \<open>
  The process environment and the provider, as the route code sees them.  In the identity
  body, \<open>expires_in = Some n\<close> exactly when \<^verbatim>\<open>typeof expires_in === 'number'\<close>.
\<close>

record folder =
  fid :: nat
  fname :: string
  parent :: "nat option option"

record folder_body =
  f_success :: bool
  f_result :: "folder list"

text \<open>
  \<^verbatim>\<open>response.data\<close> of the two content endpoints.  In the full content, \<open>fb_result\<close> lists
  the \<^verbatim>\<open>content\<close> field of every element of \<^verbatim>\<open>result\<close> (\<open>None\<close> when the field is absent,
  the empty list when \<^verbatim>\<open>result\<close> itself is).  In the answer of \<^verbatim>\<open>content.json\<close>,
  \<open>s_errors\<close> is empty when there is no \<^verbatim>\<open>errors\<close> field, and \<open>s_result\<close> is \<open>Some\<close>
  exactly when \<^verbatim>\<open>result\<close> is an array.
\<close>

record full_body =
  fb_success :: bool
  fb_result :: "string option list"

record api_error =
  err_code :: string
  err_text :: string

record sections_body =
  s_errors :: "api_error list"
  s_result :: "content_section list option"

text \<open>
  The regular expressions the route code hands to \<^verbatim>\<open>String.prototype.replace\<close>, each with
  the replacement of its call.  The regular expression engine belongs to the platform:
  \<open>regex_replace\<close> is a function of the environment, as are \<^verbatim>\<open>path.join\<close> and
  \<^verbatim>\<open>new Date(x).toLocaleString()\<close>.
  \<^item> \<open>Not_word_space_hyphen\<close>: every character that is no word character, white space or
    hyphen, replaced by nothing;
  \<^item> \<open>Whitespace_run\<close>: every run of white space, replaced by an underscore;
  \<^item> \<open>View_as_webpage_link\<close>, \<open>Unsubscribe_link\<close>: the two system tokens, replaced by
    \<^verbatim>\<open>#viewAsWebpage\<close> and \<^verbatim>\<open>#unsubscribe\<close>;
  \<^item> \<open>Lead_field\<close>, \<open>My_token\<close>, \<open>Company_field\<close>: the tokens of a lead, of the program and
    of the company, replaced by a bracketed label with the name of the field;
  \<^item> \<open>Each_block\<close>: an each-block with its body, replaced by \<^verbatim>\<open>[Each Loop Content]\<close>.
\<close>

datatype pattern =
    Not_word_space_hyphen
  | Whitespace_run
  | View_as_webpage_link
  | Unsubscribe_link
  | Lead_field
  | My_token
  | Company_field
  | Each_block

text \<open>
  \<open>settle_order\<close> gives, for the templates of a batch, the order in which their callbacks
  settle; it is the network that decides it.
\<close>

record route_env =
  r_clock :: "nat \<Rightarrow> int"
  MARKETO_CLIENT_ID :: "string option"
  MARKETO_CLIENT_SECRET :: "string option"
  MARKETO_IDENTITY_URL :: "string option"
  MARKETO_REST_URL :: "string option"
  r_identity :: "auth_body option http"
  folders :: "nat \<Rightarrow> folder_body option http"
  r_emails :: "nat \<Rightarrow> list_body option http"
  full_content :: "string \<Rightarrow> full_body option http"
  content_json :: "string \<Rightarrow> sections_body option http"
  r_fs_error :: "string \<Rightarrow> message option"
  r_path_join :: "string \<Rightarrow> string \<Rightarrow> string"
  regex_replace :: "pattern \<Rightarrow> string \<Rightarrow> string"
  toLocaleString :: "string \<Rightarrow> string"
  settle_order :: "template list \<Rightarrow> template list"

definition r_now :: "route_env \<Rightarrow> session \<Rightarrow> int" where
  "r_now env s = r_clock env (length (requests s))"

definition TOKEN_EXPIRY_BUFFER_MS :: int where
  "TOKEN_EXPIRY_BUFFER_MS = 5 * 60 * 1000"

text \<open>The message the \<^verbatim>\<open>catch\<close> block of \<^verbatim>\<open>getMarketoAccessToken\<close> builds.\<close>

definition auth_error_message :: "axios_error \<Rightarrow> message" where
  "auth_error_message e =
    (case err_response e of
       None \<Rightarrow> ''Failed to authenticate with Marketo API: '' @ err_message e
     | Some r \<Rightarrow>
         (case error_description r of
            Some d \<Rightarrow>
              if d \<noteq> [] then ''Marketo Authentication Error: '' @ d
              else if status r \<noteq> [] then
                ''Marketo Authentication HTTP Error: '' @ status r @ '' - '' @ statusText r
              else ''Failed to authenticate with Marketo API: '' @ err_message e
          | None \<Rightarrow>
              if status r \<noteq> [] then
                ''Marketo Authentication HTTP Error: '' @ status r @ '' - '' @ statusText r
              else ''Failed to authenticate with Marketo API: '' @ err_message e))"

definition truthy_num :: "int option \<Rightarrow> bool" where
  "truthy_num n = (case n of None \<Rightarrow> False | Some v \<Rightarrow> v \<noteq> 0)"

definition cached_usable :: "route_env \<Rightarrow> session \<Rightarrow> bool" where
  "cached_usable env s =
    (truthy (marketoAccessToken s) \<and> truthy_num (marketoTokenExpiry s) \<and>
     (case marketoTokenExpiry s of
        None \<Rightarrow> False
      | Some e \<Rightarrow> e > r_now env s + TOKEN_EXPIRY_BUFFER_MS))"

definition getMarketoAccessToken :: "route_env \<Rightarrow> session \<Rightarrow> (message + string option) \<times> session" where
  "getMarketoAccessToken env s =
    (if cached_usable env s then (Inr (marketoAccessToken s), s)
     else if \<not> truthy (MARKETO_CLIENT_ID env) \<or> \<not> truthy (MARKETO_CLIENT_SECRET env)
             \<or> \<not> truthy (MARKETO_IDENTITY_URL env)
     then (Inl ''Marketo API credentials (Client ID, Client Secret, or Identity URL) are not configured.'', s)
     else
       (let s1 = s\<lparr>requests := requests s @ [Identity_request]\<rparr>;
            missing = \<lparr>err_message = ''Marketo token response missing required fields.'',
                       err_response = None\<rparr>
        in case r_identity env of
             Failed e \<Rightarrow> (Inl (auth_error_message e), s1)
           | Response None \<Rightarrow> (Inl (auth_error_message missing), s1)
           | Response (Some b) \<Rightarrow>
               (case (access_token b, expires_in b) of
                  (Some tok, Some ttl) \<Rightarrow>
                    if tok \<noteq> []
                    then (Inr (Some tok),
                          s1\<lparr>marketoAccessToken := Some tok,
                             marketoTokenExpiry := Some (r_now env s1 + ttl * 1000)\<rparr>)
                    else (Inl (auth_error_message missing), s1)
                | _ \<Rightarrow> (Inl (auth_error_message missing), s1))))"

section \<open>Listing all templates (library, \<^verbatim>\<open>getAllTemplates\<close>)\<close>

definition maxReturn :: nat where
  "maxReturn = 200"

text \<open>
  The \<^verbatim>\<open>while (true)\<close> loop, with its variables \<^verbatim>\<open>templates\<close> and \<^verbatim>\<open>offset\<close> as
  arguments.  The loop has no other exit than a thrown error or a short page, so the model
  is a partial function: \<open>None\<close> is a run that never returns.  Spreading a missing
  \<^verbatim>\<open>result\<close> into \<^verbatim>\<open>push\<close> throws a \<^verbatim>\<open>TypeError\<close>.
\<close>

definition not_iterable :: message where
  "not_iterable = ''response.data.result is not iterable''"

partial_function (option) getAllTemplates_loop ::
  "lib_env \<Rightarrow> template list \<Rightarrow> nat \<Rightarrow> client \<Rightarrow> ((message + template list) \<times> client) option" where
  "getAllTemplates_loop env templates offset w =
    (case getAccessToken env w of
       (Inl m, w1) \<Rightarrow> Some (Inl m, w1)
     | (Inr _, w1) \<Rightarrow>
         (let w2 = w1\<lparr>trace := trace w1 @ [Get_emails offset]\<rparr>
          in case emails env offset of
               Failed e \<Rightarrow> Some (Inl (err_message e), w2)
             | Response d \<Rightarrow>
                 if \<not> success d then Some (Inl ''Failed to fetch templates'', w2)
                 else (case result d of
                         None \<Rightarrow> Some (Inl not_iterable, w2)
                       | Some page \<Rightarrow>
                           (let templates1 = templates @ page;
                                w3 = (if progressCallback env
                                      then w2\<lparr>trace := trace w2 @ [Progress_count (length templates1)]\<rparr>
                                      else w2)
                            in if length page < maxReturn then Some (Inr templates1, w3)
                               else getAllTemplates_loop env templates1 (offset + maxReturn) w3))))"

definition getAllTemplates :: "lib_env \<Rightarrow> client \<Rightarrow> ((message + template list) \<times> client) option" where
  "getAllTemplates env w = getAllTemplates_loop env [] 0 w"

section \<open>Flattening content sections\<close>

definition nl :: string where
  "nl = [CHR 0x0A]"

text \<open>
  The three flattening loops of the repository differ only in what they append after a
  fragment.  \<open>collect_items\<close> is the inner loop over \<^verbatim>\<open>section.value\<close>, \<open>collect_sections\<close>
  the outer loop; the accumulator is the string built so far.
\<close>

fun collect_items :: "string \<Rightarrow> string \<Rightarrow> html_item list \<Rightarrow> string" where
  "collect_items sep acc [] = acc"
| "collect_items sep acc (item # items) =
     collect_items sep
       (if item_type item = ''HTML'' \<and> item_value item \<noteq> [] then acc @ item_value item @ sep else acc)
       items"

fun collect_sections :: "string \<Rightarrow> string \<Rightarrow> content_section list \<Rightarrow> string" where
  "collect_sections sep acc [] = acc"
| "collect_sections sep acc (s # ss) =
     (let acc1 = (case sec_value s of None \<Rightarrow> acc | Some items \<Rightarrow> collect_items sep acc items);
          acc2 = (case content s of
                    None \<Rightarrow> acc1
                  | Some c \<Rightarrow> if contentType s = Some ''html'' \<and> c \<noteq> [] then acc1 @ c @ sep else acc1)
      in collect_sections sep acc2 ss)"

text \<open>Library, \<^verbatim>\<open>extractHtmlContent\<close>: each fragment is followed by one newline.\<close>

definition extractHtmlContent :: "content_section list \<Rightarrow> string" where
  "extractHtmlContent contentSections = collect_sections nl [] contentSections"

text \<open>Route code, the loop of \<^verbatim>\<open>fetchContentJsonBackup\<close>: two newlines after each fragment.\<close>

definition backup_collectedHtml :: "content_section list \<Rightarrow> string" where
  "backup_collectedHtml sections = collect_sections (nl @ nl) [] sections"

text \<open>Route code, the loop of \<^verbatim>\<open>fetchEmailHtmlContent\<close>: a separator comment.\<close>

definition section_separator :: string where
  "section_separator = nl @ nl @ ''<!-- Section Separator -->'' @ nl @ nl"

definition helper_collectedHtml :: "content_section list \<Rightarrow> string" where
  "helper_collectedHtml sections = collect_sections section_separator [] sections"

text \<open>
  The flattening as the specification words it: for every section, the values of its items
  of type HTML, then its inline HTML content if present.
\<close>

definition section_fragments :: "content_section \<Rightarrow> string list" where
  "section_fragments s =
    (case sec_value s of
       None \<Rightarrow> []
     | Some items \<Rightarrow> map item_value (filter (\<lambda>i. item_type i = ''HTML'') items))
    @ (case content s of
         None \<Rightarrow> []
       | Some c \<Rightarrow> if contentType s = Some ''html'' then [c] else [])"

definition fragments :: "content_section list \<Rightarrow> string list" where
  "fragments sections = concat (map section_fragments sections)"

definition terminated :: "string \<Rightarrow> string list \<Rightarrow> string" where
  "terminated sep frags = concat (map (\<lambda>f. f @ sep) (filter (\<lambda>f. f \<noteq> []) frags))"

section \<open>Exporting templates (library)\<close>

definition getTemplateContent :: "lib_env \<Rightarrow> string \<Rightarrow> client \<Rightarrow> (message + string) \<times> client" where
  "getTemplateContent env template_id w =
    (case getAccessToken env w of
       (Inl m, w1) \<Rightarrow> (Inl m, w1)
     | (Inr _, w1) \<Rightarrow>
         (let w2 = w1\<lparr>trace := trace w1 @ [Get_content template_id]\<rparr>
          in case content_api env template_id of
               Failed e \<Rightarrow> (Inl (err_message e), w2)
             | Response d \<Rightarrow>
                 if \<not> c_success d
                 then (Inl (''Failed to fetch template content for ID '' @ template_id), w2)
                 else (Inr (extractHtmlContent (c_result d)), w2)))"

text \<open>\<^verbatim>\<open>fs.mkdir\<close> and \<^verbatim>\<open>fs.writeFile\<close>: the file system refuses the paths \<open>fs_error\<close> names.\<close>

definition mkdir :: "lib_env \<Rightarrow> string \<Rightarrow> client \<Rightarrow> (message + unit) \<times> client" where
  "mkdir env p w =
    (let w1 = w\<lparr>trace := trace w @ [Mkdir p]\<rparr>
     in case fs_error env p of
          Some m \<Rightarrow> (Inl m, w1)
        | None \<Rightarrow> (Inr (), w1\<lparr>dirs := insert p (dirs w1)\<rparr>))"

definition writeFile :: "lib_env \<Rightarrow> string \<Rightarrow> file_content \<Rightarrow> client \<Rightarrow> (message + unit) \<times> client" where
  "writeFile env p c w =
    (let w1 = w\<lparr>trace := trace w @ [WriteFile p]\<rparr>
     in case fs_error env p of
          Some m \<Rightarrow> (Inl m, w1)
        | None \<Rightarrow> (Inr (), w1\<lparr>files := (files w1)(p \<mapsto> c)\<rparr>))"

text \<open>
  The \<^verbatim>\<open>try\<close> block of \<^verbatim>\<open>exportTemplate\<close>: fetch the HTML and, when it is not empty,
  write it.
\<close>

definition saveHtml :: "lib_env \<Rightarrow> template \<Rightarrow> string \<Rightarrow> client \<Rightarrow> (message + unit) \<times> client" where
  "saveHtml env t templateDir w =
    (case getTemplateContent env (tid t) w of
       (Inl m, w1) \<Rightarrow> (Inl m, w1)
     | (Inr htmlContent, w1) \<Rightarrow>
         if htmlContent \<noteq> []
         then writeFile env (path_join env templateDir (tid t @ ''.html'')) (Text htmlContent) w1
         else (Inr (), w1))"

definition exportTemplate :: "lib_env \<Rightarrow> template \<Rightarrow> string \<Rightarrow> client \<Rightarrow> (message + string) \<times> client" where
  "exportTemplate env t outputDir w =
    (let templateDir = path_join env outputDir (''template_'' @ tid t)
     in case mkdir env templateDir w of
          (Inl m, w1) \<Rightarrow> (Inl m, w1)
        | (Inr _, w1) \<Rightarrow>
            (case writeFile env (path_join env templateDir ''metadata.json'') (Json t) w1 of
               (Inl m, w2) \<Rightarrow> (Inl m, w2)
             | (Inr _, w2) \<Rightarrow>
                 (case saveHtml env t templateDir w2 of
                    (Inr _, w3) \<Rightarrow> (Inr templateDir, w3)
                  | (Inl m, w3) \<Rightarrow>
                      (case writeFile env (path_join env templateDir ''error.txt'')
                              (Text (''Error retrieving HTML content: '' @ m)) w3 of
                         (Inl m', w4) \<Rightarrow> (Inl m', w4)
                       | (Inr _, w4) \<Rightarrow> (Inr templateDir, w4)))))"

text \<open>The body of the \<^verbatim>\<open>for\<close> loop of \<^verbatim>\<open>exportAllTemplates\<close>, for one template.\<close>

definition exportOne :: "lib_env \<Rightarrow> string \<Rightarrow> template \<Rightarrow> export_result \<times> client \<Rightarrow> export_result \<times> client" where
  "exportOne env outputDir t rw =
    (case rw of (results, w) \<Rightarrow>
       (case exportTemplate env t outputDir w of
          (r, w1) \<Rightarrow>
            (let results1 =
                   (case r of
                      Inr _ \<Rightarrow> results\<lparr>successful := successful results + 1\<rparr>
                    | Inl m \<Rightarrow>
                        results\<lparr>failed := failed results + 1,
                                errors := errors results @ [\<lparr>templateId = tid t, error = m\<rparr>]\<rparr>)
             in (results1,
                 if progressCallback env
                 then w1\<lparr>trace := trace w1 @ [Progress_results results1]\<rparr>
                 else w1))))"

fun exportLoop :: "lib_env \<Rightarrow> string \<Rightarrow> template list \<Rightarrow> export_result \<times> client \<Rightarrow> export_result \<times> client" where
  "exportLoop env outputDir [] rw = rw"
| "exportLoop env outputDir (t # ts) rw = exportLoop env outputDir ts (exportOne env outputDir t rw)"

definition exportAllTemplates ::
  "lib_env \<Rightarrow> string \<Rightarrow> client \<Rightarrow> ((message + export_result) \<times> client) option" where
  "exportAllTemplates env outputDir w =
    Option.bind (getAllTemplates env w)
      (\<lambda>r. case r of
              (Inl m, w1) \<Rightarrow> Some (Inl m, w1)
            | (Inr templates, w1) \<Rightarrow>
                (case exportLoop env outputDir templates
                        (\<lparr>total = length templates, successful = 0, failed = 0, errors = []\<rparr>, w1) of
                   (results, w2) \<Rightarrow> Some (Inr results, w2)))"

section \<open>Folder paths (route code)\<close>

text \<open>\<^verbatim>\<open>!folderId\<close>: an absent identifier and the number 0 are falsy.\<close>

fun present :: "nat option \<Rightarrow> bool" where
  "present None = False"
| "present (Some i) = (i \<noteq> 0)"

text \<open>
  \<^verbatim>\<open>getFolderDetails\<close>: the token is fetched outside the \<^verbatim>\<open>try\<close>, so a failed
  authentication is thrown on; every failure of the folder request itself gives \<^verbatim>\<open>null\<close>.
\<close>

definition getFolderDetails :: "route_env \<Rightarrow> nat option \<Rightarrow> session \<Rightarrow> (message + folder option) \<times> session" where
  "getFolderDetails env folderId s =
    (case folderId of
       None \<Rightarrow> (Inr None, s)
     | Some i \<Rightarrow>
         if i = 0 then (Inr None, s)
         else (case getMarketoAccessToken env s of
                 (Inl m, s1) \<Rightarrow> (Inl m, s1)
               | (Inr _, s1) \<Rightarrow>
                   (let s2 = s1\<lparr>requests := requests s1 @ [Folder_request i]\<rparr>
                    in case folders env i of
                         Failed e \<Rightarrow> (Inr None, s2)
                       | Response None \<Rightarrow> (Inr None, s2)
                       | Response (Some d) \<Rightarrow>
                           if f_success d
                           then (case f_result d of
                                   [] \<Rightarrow> (Inr None, s2)
                                 | fd # _ \<Rightarrow> (Inr (Some fd), s2))
                           else (Inr None, s2))))"

text \<open>
  \<^verbatim>\<open>folderDetails.parent.id\<close> when both the parent and its identifier are truthy.
\<close>

definition parent_id :: "folder \<Rightarrow> nat option" where
  "parent_id fd =
    (case parent fd of
       None \<Rightarrow> None
     | Some None \<Rightarrow> None
     | Some (Some p) \<Rightarrow> if p = 0 then None else Some p)"

text \<open>
  \<^verbatim>\<open>buildFolderPath\<close> recurses on the parent with no bound and no record of the folders
  already seen, so it is a partial function: \<open>None\<close> is a recursion that never returns.
\<close>

partial_function (option) buildFolderPath ::
  "route_env \<Rightarrow> nat option \<Rightarrow> session \<Rightarrow> ((message + folder list) \<times> session) option" where
  "buildFolderPath env folderId s =
    (if \<not> present folderId then Some (Inr [], s)
     else (case getFolderDetails env folderId s of
             (Inl m, s1) \<Rightarrow> Some (Inl m, s1)
           | (Inr None, s1) \<Rightarrow> Some (Inr [], s1)
           | (Inr (Some folderDetails), s1) \<Rightarrow>
               (case parent_id folderDetails of
                  None \<Rightarrow> Some (Inr [folderDetails], s1)
                | Some p \<Rightarrow>
                    Option.bind (buildFolderPath env (Some p) s1)
                      (\<lambda>r. case r of
                              (Inl m, s2) \<Rightarrow> Some (Inl m, s2)
                            | (Inr parentPath, s2) \<Rightarrow> Some (Inr (parentPath @ [folderDetails]), s2)))))"

text \<open>\<^verbatim>\<open>Array.prototype.join\<close> on strings.\<close>

fun join :: "string \<Rightarrow> string list \<Rightarrow> string" where
  "join sep [] = []"
| "join sep [x] = x"
| "join sep (x # y # ys) = x @ sep @ join sep (y # ys)"

definition formatFolderPath :: "folder list \<Rightarrow> string" where
  "formatFolderPath folderPath =
    (if length folderPath = 0 then ''Unknown Location''
     else join '' > '' (map fname folderPath))"

section \<open>Fetching the HTML of one email (route code)\<close>

text \<open>
  \<^verbatim>\<open>!emailId || isNaN(emailId)\<close>: the identifier is a number of the provider's, kept in
  decimal form, so the test holds for 0 only.
\<close>

definition invalid_email_id :: "string \<Rightarrow> bool" where
  "invalid_email_id emailId = (emailId = ''0'')"

definition api_error_message :: "api_error \<Rightarrow> message" where
  "api_error_message apiError =
    ''Marketo API Error ('' @ err_code apiError @ ''): '' @ err_text apiError"

text \<open>\<^verbatim>\<open>fetchEmailHtmlContent\<close>: the last resort, with its own request to \<^verbatim>\<open>content.json\<close>.\<close>

definition fetchEmailHtmlContent :: "route_env \<Rightarrow> string \<Rightarrow> session \<Rightarrow> (message + string option) \<times> session" where
  "fetchEmailHtmlContent env emailId s =
    (if \<not> truthy (MARKETO_REST_URL env) then (Inl ''Marketo REST API URL is not configured.'', s)
     else if invalid_email_id emailId then (Inl ''Invalid Email ID provided for content fetch.'', s)
     else (case getMarketoAccessToken env s of
             (Inl m, s1) \<Rightarrow> (Inl m, s1)
           | (Inr _, s1) \<Rightarrow>
               (let s2 = s1\<lparr>requests := requests s1 @ [Content_request emailId]\<rparr>
                in case content_json env emailId of
                     Failed e \<Rightarrow> (Inl (err_message e), s2)
                   | Response None \<Rightarrow>
                       (Inl (''Email with ID '' @ emailId @ '' content unavailable (empty response).''), s2)
                   | Response (Some d) \<Rightarrow>
                       (case s_errors d of
                          apiError # _ \<Rightarrow> (Inl (api_error_message apiError), s2)
                        | [] \<Rightarrow>
                            (case s_result d of
                               None \<Rightarrow>
                                 (Inl (''Email with ID '' @ emailId
                                       @ '' content unavailable (unexpected response format).''), s2)
                             | Some sections \<Rightarrow>
                                 (let collectedHtml = helper_collectedHtml sections
                                  in if collectedHtml \<noteq> [] then (Inr (Some collectedHtml), s2)
                                     else (Inr None, s2)))))))"

definition could_not_retrieve :: "string \<Rightarrow> message" where
  "could_not_retrieve emailId =
    ''Could not retrieve HTML content for email ID '' @ emailId
    @ '' through any available API methods.''"

text \<open>\<^verbatim>\<open>fetchContentJsonBackup\<close>: the token and the REST URL are handed in by the caller.\<close>

definition fetchContentJsonBackup :: "route_env \<Rightarrow> string \<Rightarrow> session \<Rightarrow> (message + string option) \<times> session" where
  "fetchContentJsonBackup env emailId s =
    (let s1 = s\<lparr>requests := requests s @ [Content_request emailId]\<rparr>
     in case content_json env emailId of
          Failed e \<Rightarrow> (Inl (err_message e), s1)
        | Response None \<Rightarrow> (Inl (could_not_retrieve emailId), s1)
        | Response (Some d) \<Rightarrow>
            (case s_errors d of
               apiError # _ \<Rightarrow> (Inl (api_error_message apiError), s1)
             | [] \<Rightarrow>
                 (case s_result d of
                    None \<Rightarrow> (Inl (could_not_retrieve emailId), s1)
                  | Some sections \<Rightarrow>
                      (let collectedHtml = backup_collectedHtml sections
                       in if collectedHtml \<noteq> [] then (Inr (Some collectedHtml), s1)
                          else fetchEmailHtmlContent env emailId s1))))"

text \<open>
  \<^verbatim>\<open>getCompleteEmailContent\<close>: the full content first.  Whatever goes wrong with it (a
  rejected request, an unsuccessful answer, an answer without a first result, whose read
  throws inside the \<^verbatim>\<open>try\<close>) leads to the backup, whose own errors are thrown on.
\<close>

definition getCompleteEmailContent :: "route_env \<Rightarrow> string \<Rightarrow> session \<Rightarrow> (message + string option) \<times> session" where
  "getCompleteEmailContent env emailId s =
    (if \<not> truthy (MARKETO_REST_URL env) then (Inl ''Marketo REST API URL is not configured.'', s)
     else if invalid_email_id emailId then (Inl ''Invalid Email ID provided for content fetch.'', s)
     else (case getMarketoAccessToken env s of
             (Inl m, s1) \<Rightarrow> (Inl m, s1)
           | (Inr _, s1) \<Rightarrow>
               (let s2 = s1\<lparr>requests := requests s1 @ [Full_content_request emailId]\<rparr>
                in case full_content env emailId of
                     Failed e \<Rightarrow> fetchContentJsonBackup env emailId s2
                   | Response None \<Rightarrow> fetchContentJsonBackup env emailId s2
                   | Response (Some d) \<Rightarrow>
                       if fb_success d
                       then (case fb_result d of
                               [] \<Rightarrow> fetchContentJsonBackup env emailId s2
                             | c # _ \<Rightarrow> (Inr c, s2))
                       else fetchContentJsonBackup env emailId s2)))"

section \<open>Processing one template (route code, \<^verbatim>\<open>processTemplate\<close>)\<close>

text \<open>\<^verbatim>\<open>String.prototype.includes\<close> and \<^verbatim>\<open>replace\<close> with a string pattern (first match).\<close>

fun str_includes :: "string \<Rightarrow> string \<Rightarrow> bool" where
  "str_includes [] sub = (sub = [])"
| "str_includes (c # cs) sub = (take (length sub) (c # cs) = sub \<or> str_includes cs sub)"

fun replace_first :: "string \<Rightarrow> string \<Rightarrow> string \<Rightarrow> string" where
  "replace_first pat rep [] = (if pat = [] then rep else [])"
| "replace_first pat rep (c # cs) =
     (if take (length pat) (c # cs) = pat then rep @ drop (length pat) (c # cs)
      else c # replace_first pat rep cs)"

definition dq :: string where
  "dq = [CHR 0x22]"

definition viewport_meta :: string where
  "viewport_meta = ''<meta name='' @ dq @ ''viewport'' @ dq @ '' content='' @ dq
     @ ''width=device-width, initial-scale=1.0'' @ dq @ ''>''"

definition enhancedMarketoEmailHtml :: "route_env \<Rightarrow> string \<Rightarrow> string" where
  "enhancedMarketoEmailHtml env emailContent =
    (let processedContent =
           regex_replace env Each_block
             (regex_replace env Company_field
               (regex_replace env My_token
                 (regex_replace env Lead_field
                   (regex_replace env Unsubscribe_link
                     (regex_replace env View_as_webpage_link emailContent)))))
     in if \<not> str_includes processedContent ''<!DOCTYPE''
        then ''<!DOCTYPE html>'' @ nl @ ''<html>'' @ nl @ ''<head>'' @ nl
             @ ''<meta charset='' @ dq @ ''utf-8'' @ dq @ ''>'' @ nl
             @ viewport_meta @ nl @ ''<title>Email Preview</title>'' @ nl @ ''</head>'' @ nl
             @ ''<body>'' @ nl @ processedContent @ nl @ ''</body>'' @ nl @ ''</html>''
        else if \<not> str_includes processedContent ''viewport''
        then replace_first ''<head>'' (''<head>'' @ nl @ viewport_meta) processedContent
        else processedContent)"

text \<open>The files of the route code: the metadata object with the folder path, or a text.\<close>

datatype route_file = Metadata template string | Contents string

record disk =
  d_files :: "string \<rightharpoonup> route_file"
  d_dirs :: "string set"

text \<open>\<^verbatim>\<open>fs.mkdirSync\<close> and \<^verbatim>\<open>fs.writeFileSync\<close> throw for the paths the file system refuses.\<close>

definition mkdirSync :: "route_env \<Rightarrow> string \<Rightarrow> disk \<Rightarrow> message + disk" where
  "mkdirSync env p d =
    (case r_fs_error env p of
       Some m \<Rightarrow> Inl m
     | None \<Rightarrow> Inr (d\<lparr>d_dirs := insert p (d_dirs d)\<rparr>))"

definition writeFileSync :: "route_env \<Rightarrow> string \<Rightarrow> route_file \<Rightarrow> disk \<Rightarrow> message + disk" where
  "writeFileSync env p c d =
    (case r_fs_error env p of
       Some m \<Rightarrow> Inl m
     | None \<Rightarrow> Inr (d\<lparr>d_files := (d_files d)(p \<mapsto> c)\<rparr>))"

definition sanitizedName :: "route_env \<Rightarrow> string \<Rightarrow> string" where
  "sanitizedName env name =
    regex_replace env Whitespace_run (regex_replace env Not_word_space_hyphen name)"

text \<open>\<^verbatim>\<open>x || 'N/A'\<close> on a string.\<close>

definition or_NA :: "string \<Rightarrow> string" where
  "or_NA x = (if x = [] then ''N/A'' else x)"

definition metadataText :: "route_env \<Rightarrow> template \<Rightarrow> string \<Rightarrow> string" where
  "metadataText env t folderPathString =
    ''Template Name: '' @ tname t @ nl
    @ ''ID: '' @ tid t @ nl
    @ ''Status: '' @ tstatus t @ nl
    @ ''Folder: '' @ (case folder t of None \<Rightarrow> ''Unknown'' | Some f \<Rightarrow> folder_value f) @ nl
    @ ''Folder Path: '' @ folderPathString @ nl
    @ ''Created At: '' @ toLocaleString env (createdAt t) @ nl
    @ ''Updated At: '' @ toLocaleString env (updatedAt t) @ nl
    @ ''Subject: '' @ or_NA (subject t) @ nl
    @ ''From Name: '' @ or_NA (fromName t) @ nl
    @ ''From Email: '' @ or_NA (fromEmail t) @ nl"

text \<open>
  The \<^verbatim>\<open>try\<close> block of \<^verbatim>\<open>processTemplate\<close>: fetch the HTML, write the processed HTML or the
  placeholder \<^verbatim>\<open>no_content.txt\<close>.
\<close>

definition saveContent ::
  "route_env \<Rightarrow> template \<Rightarrow> string \<Rightarrow> string \<Rightarrow> session \<times> disk \<Rightarrow> (message + unit) \<times> session \<times> disk" where
  "saveContent env t templateName templateDir st =
    (case st of (s, d) \<Rightarrow>
       (case getCompleteEmailContent env (tid t) s of
          (Inl m, s1) \<Rightarrow> (Inl m, s1, d)
        | (Inr htmlContent, s1) \<Rightarrow>
            (case htmlContent of
               None \<Rightarrow>
                 (case writeFileSync env (r_path_join env templateDir ''no_content.txt'')
                         (Contents ''No HTML content was found for this template.'') d of
                    Inl m \<Rightarrow> (Inl m, s1, d)
                  | Inr d1 \<Rightarrow> (Inr (), s1, d1))
             | Some html \<Rightarrow>
                 if html \<noteq> []
                 then (case writeFileSync env (r_path_join env templateDir (templateName @ ''.html''))
                              (Contents (enhancedMarketoEmailHtml env html)) d of
                         Inl m \<Rightarrow> (Inl m, s1, d)
                       | Inr d1 \<Rightarrow> (Inr (), s1, d1))
                 else (case writeFileSync env (r_path_join env templateDir ''no_content.txt'')
                              (Contents ''No HTML content was found for this template.'') d of
                         Inl m \<Rightarrow> (Inl m, s1, d)
                       | Inr d1 \<Rightarrow> (Inr (), s1, d1)))))"

text \<open>
  The \<^verbatim>\<open>try ... catch\<close> of \<^verbatim>\<open>processTemplate\<close>: on an error the marker \<^verbatim>\<open>error.txt\<close> is
  written and the error is thrown again, to the caller.
\<close>

definition saveContentOrError ::
  "route_env \<Rightarrow> template \<Rightarrow> string \<Rightarrow> string \<Rightarrow> session \<times> disk \<Rightarrow> (message + bool) \<times> session \<times> disk" where
  "saveContentOrError env t templateName templateDir st =
    (case saveContent env t templateName templateDir st of
       (Inr _, st1) \<Rightarrow> (Inr True, st1)
     | (Inl m, s1, d1) \<Rightarrow>
         (case writeFileSync env (r_path_join env templateDir ''error.txt'')
                 (Contents (''Error retrieving HTML content: '' @ m)) d1 of
            Inl m' \<Rightarrow> (Inl m', s1, d1)
          | Inr d2 \<Rightarrow> (Inl m, s1, d2)))"

text \<open>
  \<^verbatim>\<open>processTemplate\<close>.  It walks the folder chain with \<^verbatim>\<open>buildFolderPath\<close>, so it is partial
  as that walk is: \<open>None\<close> is a call that never settles.
\<close>

definition processTemplate ::
  "route_env \<Rightarrow> template \<Rightarrow> string \<Rightarrow> session \<times> disk \<Rightarrow> ((message + bool) \<times> session \<times> disk) option" where
  "processTemplate env t exportDir st =
    (case st of (s, d) \<Rightarrow>
       (let templateName = sanitizedName env (tname t);
            templateDir = r_path_join env exportDir (templateName @ ''_'' @ tid t)
        in case mkdirSync env templateDir d of
             Inl m \<Rightarrow> Some (Inl m, s, d)
           | Inr d1 \<Rightarrow>
               Option.bind
                 (case folder t of
                    None \<Rightarrow> Some (Inr [], s)
                  | Some f \<Rightarrow>
                      if folder_id f = 0 then Some (Inr [], s)
                      else buildFolderPath env (Some (folder_id f)) s)
                 (\<lambda>r. case r of
                         (Inl m, s1) \<Rightarrow> Some (Inl m, s1, d1)
                       | (Inr folderPath, s1) \<Rightarrow>
                           (let folderPathString = formatFolderPath folderPath
                            in case writeFileSync env (r_path_join env templateDir ''metadata.json'')
                                      (Metadata t folderPathString) d1 of
                                 Inl m \<Rightarrow> Some (Inl m, s1, d1)
                               | Inr d2 \<Rightarrow>
                                   (case writeFileSync env (r_path_join env templateDir ''metadata.txt'')
                                           (Contents (metadataText env t folderPathString)) d2 of
                                      Inl m \<Rightarrow> Some (Inl m, s1, d2)
                                    | Inr d3 \<Rightarrow>
                                        Some (saveContentOrError env t templateName templateDir
                                                (s1, d3)))))))"

section \<open>The batch loop of \<^verbatim>\<open>bulkExportTemplates\<close> (route code)\<close>

definition BATCH_SIZE :: nat where
  "BATCH_SIZE = 5"

record counters =
  processedCount :: nat
  successCount :: nat
  errorCount :: nat

text \<open>
  The lines the batch loop writes to the response, by kind: the announcement of a batch
  (number, number of batches, first and last position), the line of a processed template
  (running count, number of templates, name, identifier), the line of a failed template
  (identifier, name, message of the error), and the two lines of a progress summary, with
  the counts they are computed from.
\<close>

datatype batch_line =
    Processing_batch nat nat nat nat
  | Processed_template nat nat string string
  | Error_processing string string message
  | Progress_bar nat nat
  | Progress_summary nat nat nat nat

text \<open>
  The callback that \<^verbatim>\<open>batch.map\<close> runs for one template, from the moment
  \<^verbatim>\<open>processTemplate\<close> settles: its \<^verbatim>\<open>try\<close> branch counts a success, its \<^verbatim>\<open>catch\<close> branch
  counts an error and writes the error line; neither throws.  The callbacks of one batch
  run concurrently in the source.  Here each runs as a whole, one after the other, in the
  order \<open>settle_order\<close> gives for the batch; how the requests of different templates of a
  batch interleave is not described.
\<close>

definition settleTemplate ::
  "route_env \<Rightarrow> string \<Rightarrow> nat \<Rightarrow> template \<Rightarrow> counters \<times> batch_line list \<times> session \<times> disk
     \<Rightarrow> (counters \<times> batch_line list \<times> session \<times> disk) option" where
  "settleTemplate env exportDir n t x =
    (case x of (c, written, st) \<Rightarrow>
       Option.bind (processTemplate env t exportDir st)
         (\<lambda>r. case r of
                 (Inr _, st1) \<Rightarrow>
                   Some (c\<lparr>processedCount := processedCount c + 1,
                           successCount := successCount c + 1\<rparr>,
                         written @ [Processed_template (processedCount c + 1) n (tname t) (tid t)],
                         st1)
               | (Inl m, st1) \<Rightarrow>
                   Some (c\<lparr>processedCount := processedCount c + 1,
                           errorCount := errorCount c + 1\<rparr>,
                         written @ [Error_processing (tid t) (tname t) m],
                         st1)))"

fun settleAll ::
  "route_env \<Rightarrow> string \<Rightarrow> nat \<Rightarrow> template list \<Rightarrow> counters \<times> batch_line list \<times> session \<times> disk
     \<Rightarrow> (counters \<times> batch_line list \<times> session \<times> disk) option" where
  "settleAll env exportDir n [] x = Some x"
| "settleAll env exportDir n (t # ts) x =
     Option.bind (settleTemplate env exportDir n t x) (settleAll env exportDir n ts)"

text \<open>
  The \<^verbatim>\<open>for\<close> loop over the batches, with its index \<open>i\<close> as an argument.
  \<^verbatim>\<open>Math.ceil(n / 5)\<close> is \<open>(n + 4) div 5\<close>.
\<close>

function exportBatches ::
  "route_env \<Rightarrow> string \<Rightarrow> template list \<Rightarrow> nat \<Rightarrow> counters \<times> batch_line list \<times> session \<times> disk
     \<Rightarrow> (counters \<times> batch_line list \<times> session \<times> disk) option" where
  "exportBatches env exportDir allTemplates i x =
    (if i < length allTemplates
     then (case x of (c, written, st) \<Rightarrow>
             (let batch = take BATCH_SIZE (drop i allTemplates);
                  batchNumber = i div BATCH_SIZE + 1;
                  totalBatches = (length allTemplates + BATCH_SIZE - 1) div BATCH_SIZE;
                  written1 = written
                    @ [Processing_batch batchNumber totalBatches (i + 1)
                         (min (i + BATCH_SIZE) (length allTemplates))]
              in case settleAll env exportDir (length allTemplates) (settle_order env batch)
                        (c, written1, st) of
                   None \<Rightarrow> None
                 | Some (c1, written2, st1) \<Rightarrow>
                     exportBatches env exportDir allTemplates (i + BATCH_SIZE)
                       (c1,
                        if batchNumber mod 5 = 0 \<or> i + BATCH_SIZE \<ge> length allTemplates
                        then written2
                          @ [Progress_bar (processedCount c1) (length allTemplates),
                             Progress_summary (processedCount c1) (length allTemplates)
                               (successCount c1) (errorCount c1)]
                        else written2,
                        st1)))
     else Some x)"
  by pat_completeness auto
termination
  by (relation "measure (\<lambda>(env, exportDir, allTemplates, i, x). length allTemplates - i)")
     (auto simp: BATCH_SIZE_def)

declare exportBatches.simps [simp del]

text \<open>The identifiers of the templates that have a line of their own, in the order written.\<close>

fun settled :: "batch_line list \<Rightarrow> string list" where
  "settled [] = []"
| "settled (Processed_template k n name i # ls) = i # settled ls"
| "settled (Error_processing i name m # ls) = i # settled ls"
| "settled (_ # ls) = settled ls"

fun error_lines :: "batch_line list \<Rightarrow> batch_line list" where
  "error_lines [] = []"
| "error_lines (Error_processing i name m # ls) = Error_processing i name m # error_lines ls"
| "error_lines (_ # ls) = error_lines ls"

section \<open>Concrete scenarios\<close>

text \<open>
  A client and a session that hold the token \<open>cached\<close>, expiring at instant 1000000, and
  environments whose clock stands at a given instant.
\<close>

definition good_identity :: "auth_body option http" where
  "good_identity = Response (Some \<lparr>access_token = Some ''fresh'', expires_in = Some 3600\<rparr>)"

definition client_at :: "client" where
  "client_at = \<lparr>accessToken = Some ''cached'', tokenExpiry = At 1000000, files = Map.empty,
                dirs = {}, trace = []\<rparr>"

definition session_at :: "session" where
  "session_at = \<lparr>marketoAccessToken = Some ''cached'', marketoTokenExpiry = Some 1000000, requests = []\<rparr>"

definition lib_env_at :: "int \<Rightarrow> lib_env" where
  "lib_env_at t = \<lparr>clock = (\<lambda>_. t), identity = good_identity,
     emails = (\<lambda>_. Response \<lparr>success = True, result = Some []\<rparr>),
     content_api = (\<lambda>_. Response \<lparr>c_success = True, c_result = []\<rparr>),
     fs_error = (\<lambda>_. None), path_join = slash_join, progressCallback = False\<rparr>"

text \<open>
  A platform for the scenarios: the dates of the scenarios as an en-US locale in UTC prints
  them, and a regular expression engine that is asked about names and contents in which
  there is nothing to replace.
\<close>

definition en_US_UTC :: "string \<Rightarrow> string" where
  "en_US_UTC d = (if d = ''2020-01-01'' then ''1/1/2020, 12:00:00 AM''
                  else if d = ''2020-01-02'' then ''1/2/2020, 12:00:00 AM''
                  else ''Invalid Date'')"

definition route_env_at :: "int \<Rightarrow> route_env" where
  "route_env_at t = \<lparr>r_clock = (\<lambda>_. t), MARKETO_CLIENT_ID = Some ''id'',
     MARKETO_CLIENT_SECRET = Some ''secret'', MARKETO_IDENTITY_URL = Some ''https://example/identity'',
     MARKETO_REST_URL = Some ''https://example/rest'',
     r_identity = good_identity, folders = (\<lambda>_. Response None), r_emails = (\<lambda>_. Response None),
     full_content = (\<lambda>_. Response None), content_json = (\<lambda>_. Response None),
     r_fs_error = (\<lambda>_. None), r_path_join = slash_join,
     regex_replace = (\<lambda>p subject. subject), toLocaleString = en_US_UTC,
     settle_order = (\<lambda>batch. batch)\<rparr>"

text \<open>The offsets of the page requests among the effects, in order.\<close>

fun emails_offsets :: "effect list \<Rightarrow> nat list" where
  "emails_offsets [] = []"
| "emails_offsets (Get_emails off # es) = off # emails_offsets es"
| "emails_offsets (_ # es) = emails_offsets es"

text \<open>
  A provider that serves a finite collection page by page, a provider whose every page is
  full, and a client that has not authenticated yet.
\<close>

definition template0 :: template where
  "template0 = \<lparr>tid = ''7'', tname = ''Welcome'', tstatus = ''approved'', createdAt = ''2020-01-01'',
     updatedAt = ''2020-01-02'', folder = None, subject = ''Hello'', fromName = ''Team'',
     fromEmail = ''team@example.com''\<rparr>"

definition serving :: "template list \<Rightarrow> lib_env" where
  "serving coll = \<lparr>clock = (\<lambda>_. 0), identity = good_identity,
     emails = (\<lambda>offset. Response \<lparr>success = True, result = Some (take maxReturn (drop offset coll))\<rparr>),
     content_api = (\<lambda>_. Response \<lparr>c_success = True, c_result = []\<rparr>),
     fs_error = (\<lambda>_. None), path_join = slash_join, progressCallback = True\<rparr>"

definition endless_env :: lib_env where
  "endless_env = \<lparr>clock = (\<lambda>_. 0), identity = good_identity,
     emails = (\<lambda>offset. Response \<lparr>success = True, result = Some (replicate 200 template0)\<rparr>),
     content_api = (\<lambda>_. Response \<lparr>c_success = True, c_result = []\<rparr>),
     fs_error = (\<lambda>_. None), path_join = slash_join, progressCallback = False\<rparr>"

definition client0 :: client where
  "client0 = \<lparr>accessToken = None, tokenExpiry = Null, files = Map.empty, dirs = {}, trace = []\<rparr>"

text \<open>The two sections of the specification's flattening example.\<close>

definition two_sections :: "content_section list" where
  "two_sections =
    [\<lparr>sec_value = Some [\<lparr>item_type = ''HTML'', item_value = ''<p>a</p>''\<rparr>],
      contentType = None, content = None\<rparr>,
     \<lparr>sec_value = None, contentType = Some ''html'', content = Some ''<p>b</p>''\<rparr>]"

text \<open>The directories the client asked the file system to create, in order.\<close>

fun mkdirs :: "effect list \<Rightarrow> string list" where
  "mkdirs [] = []"
| "mkdirs (Mkdir p # es) = p # mkdirs es"
| "mkdirs (_ # es) = mkdirs es"

text \<open>
  Five templates numbered 1 to 5; a file system that refuses the directory of template 3;
  a provider whose content endpoint reports failure; the client after one listing request.
\<close>

definition numbered :: "string \<Rightarrow> template" where
  "numbered i = template0\<lparr>tid := i\<rparr>"

definition five_templates :: "template list" where
  "five_templates = [numbered ''1'', numbered ''2'', numbered ''3'', numbered ''4'', numbered ''5'']"

definition html_body :: content_body where
  "html_body = \<lparr>c_success = True,
     c_result = [\<lparr>sec_value = None, contentType = Some ''html'', content = Some ''<p>b</p>''\<rparr>]\<rparr>"

definition refusing_env :: lib_env where
  "refusing_env = \<lparr>clock = (\<lambda>_. 0), identity = good_identity,
     emails = (\<lambda>offset. Response \<lparr>success = True, result = Some (take maxReturn (drop offset five_templates))\<rparr>),
     content_api = (\<lambda>_. Response html_body),
     fs_error = (\<lambda>p. if p = ''out/template_3'' then Some ''EACCES: permission denied'' else None),
     path_join = slash_join,
     progressCallback = False\<rparr>"

definition no_content_env :: lib_env where
  "no_content_env = \<lparr>clock = (\<lambda>_. 0), identity = good_identity,
     emails = (\<lambda>offset. Response \<lparr>success = True, result = Some (take maxReturn (drop offset [template0]))\<rparr>),
     content_api = (\<lambda>_. Response \<lparr>c_success = False, c_result = []\<rparr>),
     fs_error = (\<lambda>_. None), path_join = slash_join,
     progressCallback = False\<rparr>"

definition listed :: client where
  "listed = \<lparr>accessToken = Some ''fresh'', tokenExpiry = At 3600000, files = Map.empty,
     dirs = {}, trace = [Get_identity, Get_emails 0]\<rparr>"

text \<open>
  Three notions to state the folder claims.  The route code can obtain a token whenever
  its credentials are set and the identity endpoint answers with a token and a numeric
  lifetime.  \<open>found env i\<close> is the folder a lookup of \<open>i\<close> yields, if any.
  \<open>climbs env i chain\<close>: the walk that starts with the lookup of \<open>i\<close> finds the folders of
  \<open>chain\<close> one after the other, each the parent of the one before, and ends after them,
  at a folder without parent or at a lookup that finds nothing.
\<close>

definition can_authenticate :: "route_env \<Rightarrow> bool" where
  "can_authenticate env =
    (truthy (MARKETO_CLIENT_ID env) \<and> truthy (MARKETO_CLIENT_SECRET env)
     \<and> truthy (MARKETO_IDENTITY_URL env)
     \<and> (case r_identity env of
          Failed e \<Rightarrow> False
        | Response None \<Rightarrow> False
        | Response (Some b) \<Rightarrow> truthy (access_token b) \<and> expires_in b \<noteq> None))"

definition found :: "route_env \<Rightarrow> nat \<Rightarrow> folder option" where
  "found env i =
    (case folders env i of
       Failed e \<Rightarrow> None
     | Response None \<Rightarrow> None
     | Response (Some d) \<Rightarrow>
         if f_success d then (case f_result d of [] \<Rightarrow> None | fd # _ \<Rightarrow> Some fd) else None)"

fun climbs :: "route_env \<Rightarrow> nat \<Rightarrow> folder list \<Rightarrow> bool" where
  "climbs env i [] = (found env i = None)"
| "climbs env i (c # rest) =
     (found env i = Some c
      \<and> (case parent_id c of None \<Rightarrow> rest = [] | Some p \<Rightarrow> climbs env p rest))"

text \<open>
  A fresh session; a provider that serves a given folder table; the chain A, B, C, root of
  the specification; a folder whose parent is missing; two folders that are each other's
  parent.
\<close>

definition session0 :: session where
  "session0 = \<lparr>marketoAccessToken = None, marketoTokenExpiry = None, requests = []\<rparr>"

definition serve_folders :: "(nat \<Rightarrow> folder option) \<Rightarrow> route_env" where
  "serve_folders tree = (route_env_at 0)
     \<lparr>folders := (\<lambda>i. case tree i of
                        None \<Rightarrow> Response (Some \<lparr>f_success = True, f_result = []\<rparr>)
                      | Some fd \<Rightarrow> Response (Some \<lparr>f_success = True, f_result = [fd]\<rparr>))\<rparr>"

definition folder_root :: folder where
  "folder_root = \<lparr>fid = 1, fname = ''Marketing'', parent = None\<rparr>"

definition folder_C :: folder where
  "folder_C = \<lparr>fid = 2, fname = ''C'', parent = Some (Some 1)\<rparr>"

definition folder_B :: folder where
  "folder_B = \<lparr>fid = 3, fname = ''B'', parent = Some (Some 2)\<rparr>"

definition folder_A :: folder where
  "folder_A = \<lparr>fid = 4, fname = ''A'', parent = Some (Some 3)\<rparr>"

definition chain_tree :: "nat \<Rightarrow> folder option" where
  "chain_tree i = (if i = 1 then Some folder_root else if i = 2 then Some folder_C
                   else if i = 3 then Some folder_B else if i = 4 then Some folder_A else None)"

definition orphan :: folder where
  "orphan = \<lparr>fid = 2, fname = ''Child'', parent = Some (Some 1)\<rparr>"

definition orphan_tree :: "nat \<Rightarrow> folder option" where
  "orphan_tree i = (if i = 2 then Some orphan else None)"

definition cycle_A :: folder where
  "cycle_A = \<lparr>fid = 1, fname = ''A'', parent = Some (Some 2)\<rparr>"

definition cycle_B :: folder where
  "cycle_B = \<lparr>fid = 2, fname = ''B'', parent = Some (Some 1)\<rparr>"

definition cyclic_tree :: "nat \<Rightarrow> folder option" where
  "cyclic_tree i = (if i = 1 then Some cycle_A else if i = 2 then Some cycle_B else None)"

section \<open>Listing all templates (route code, \<^verbatim>\<open>bulkExportTemplates\<close>)\<close>

definition MAX_PAGES :: nat where
  "MAX_PAGES = 50"

definition pageSize :: nat where
  "pageSize = 200"

text \<open>
  The lines the loop writes to the response, by kind, with the numbers they carry.
\<close>

datatype progress_line =
    Fetching_page nat nat
  | Fetched_page nat nat nat
  | Reached_end nat
  | Unexpected_format nat
  | Page_limit_reached nat

text \<open>
  The \<^verbatim>\<open>do ... while (true)\<close> loop that fetches the pages, with its variables as arguments.
  The token is fetched once before the loop.  The loop counts its passes and leaves when
  the count exceeds \<^verbatim>\<open>MAX_PAGES\<close>, so it is a total function.  A rejected request is
  thrown on by the enclosing \<^verbatim>\<open>catch\<close>.
\<close>

function fetchPages ::
  "route_env \<Rightarrow> nat \<Rightarrow> nat \<Rightarrow> template list \<Rightarrow> progress_line list \<Rightarrow> session
     \<Rightarrow> (axios_error + template list \<times> progress_line list) \<times> session" where
  "fetchPages env pageCount offset allTemplates written s =
    (let pageCount1 = pageCount + 1
     in if pageCount1 > MAX_PAGES
        then (Inr (allTemplates, written @ [Page_limit_reached MAX_PAGES]), s)
        else
          (let written1 = written @ [Fetching_page pageCount1 offset];
               s1 = s\<lparr>requests := requests s @ [Emails_request offset]\<rparr>
           in case r_emails env offset of
                Failed e \<Rightarrow> (Inl e, s1)
              | Response None \<Rightarrow> (Inr (allTemplates, written1 @ [Unexpected_format pageCount1]), s1)
              | Response (Some d) \<Rightarrow>
                  (case result d of
                     None \<Rightarrow> (Inr (allTemplates, written1 @ [Unexpected_format pageCount1]), s1)
                   | Some page \<Rightarrow>
                       (let allTemplates1 = allTemplates @ page;
                            written2 = written1
                              @ [Fetched_page pageCount1 (length page) (length allTemplates1)]
                        in if length page < pageSize
                           then (Inr (allTemplates1, written2 @ [Reached_end (length allTemplates1)]), s1)
                           else fetchPages env pageCount1 (offset + pageSize) allTemplates1 written2 s1))))"
  by pat_completeness auto
termination
  by (relation "measure (\<lambda>(env, pageCount, offset, allTemplates, written, s). MAX_PAGES - pageCount)")
     auto

declare fetchPages.simps [simp del]

text \<open>A provider of the route code whose every page is full.\<close>

definition endless_route_env :: route_env where
  "endless_route_env = (route_env_at 0)
     \<lparr>r_emails := (\<lambda>offset. Response (Some \<lparr>success = True, result = Some (replicate 200 template0)\<rparr>))\<rparr>"

section \<open>A bulk export with one failing template (route code)\<close>

text \<open>
  A provider of the route code that serves the full content of every email but the one
  numbered 3, for which both the full content and the backup request are rejected; callbacks
  settle in the order of the batch.  An empty disk and the counters as the loop starts.
\<close>

definition bulk_env :: route_env where
  "bulk_env = (route_env_at 0)
     \<lparr>full_content :=
        (\<lambda>i. if i = ''3''
             then Failed \<lparr>err_message = ''Request failed with status code 500'', err_response = None\<rparr>
             else Response (Some \<lparr>fb_success = True, fb_result = [Some ''<p>b</p>'']\<rparr>)),
      content_json :=
        (\<lambda>i. Failed \<lparr>err_message = ''Request failed with status code 404'', err_response = None\<rparr>)\<rparr>"

definition disk0 :: disk where
  "disk0 = \<lparr>d_files = Map.empty, d_dirs = {}\<rparr>"

definition counters0 :: counters where
  "counters0 = \<lparr>processedCount = 0, successCount = 0, errorCount = 0\<rparr>"

section \<open>Claims\<close>

lemma getAccessToken_fresh:
  assumes "accessToken w = Some tok" "tok \<noteq> []" "tokenExpiry w = At e"
    and "date_now env w < e - 300000"
  shows "getAccessToken env w = (Inr (Some tok), w)"
  using assms by (simp add: getAccessToken_def)

lemma authenticate_trace:
  "trace (snd (authenticate env w)) = trace w @ [Get_identity]"
  by (simp add: authenticate_def Let_def split: http.split option.split)

lemma getAccessToken_stale:
  assumes "tokenExpiry w = At e" "date_now env w \<ge> e - 300000"
  shows "trace (snd (getAccessToken env w)) = trace w @ [Get_identity]"
proof -
  obtain r w1 where a: "authenticate env w = (r, w1)" by (cases "authenticate env w")
  then have "trace w1 = trace w @ [Get_identity]"
    using authenticate_trace [of env w] by simp
  with a assms show ?thesis
    by (cases r) (simp_all add: getAccessToken_def)
qed

lemma getMarketoAccessToken_fresh:
  assumes "marketoAccessToken s = Some tok" "tok \<noteq> []" "marketoTokenExpiry s = Some e" "e \<noteq> 0"
    and "r_now env s + 300000 < e"
  shows "getMarketoAccessToken env s = (Inr (Some tok), s)"
  using assms
  by (simp add: getMarketoAccessToken_def cached_usable_def truthy_num_def TOKEN_EXPIRY_BUFFER_MS_def)

lemma getMarketoAccessToken_stale:
  assumes "marketoTokenExpiry s = Some e" "e \<le> r_now env s + 300000"
    and "truthy (MARKETO_CLIENT_ID env)" "truthy (MARKETO_CLIENT_SECRET env)"
        "truthy (MARKETO_IDENTITY_URL env)"
  shows "requests (snd (getMarketoAccessToken env s)) = requests s @ [Identity_request]"
  using assms
  by (simp add: getMarketoAccessToken_def cached_usable_def TOKEN_EXPIRY_BUFFER_MS_def Let_def
      split: http.split option.split)

lemma getAccessToken_refreshed:
  assumes "tokenExpiry w = At e" "date_now env w \<ge> e - 300000"
    and "identity env = Response (Some b)" "access_token b = Some tok'" "tok' \<noteq> []"
  shows "getAccessToken env w
         = (Inr (Some tok'),
            w\<lparr>trace := trace w @ [Get_identity], accessToken := Some tok',
              tokenExpiry := (case expires_in b of
                                None \<Rightarrow> NaN
                              | Some ttl \<Rightarrow> At (clock env (Suc (length (trace w))) + ttl * 1000))\<rparr>)"
  using assms
  by (simp add: getAccessToken_def authenticate_def date_now_def Let_def split: option.split)

lemma getAccessToken_refresh_failed:
  assumes "tokenExpiry w = At e" "date_now env w \<ge> e - 300000"
    and "identity env = Failed err"
  shows "getAccessToken env w
         = (Inl (''Authentication failed: '' @ err_message err),
            w\<lparr>trace := trace w @ [Get_identity]\<rparr>)"
  using assms by (simp add: getAccessToken_def authenticate_def Let_def)

lemma getAccessToken_refresh_invalid:
  assumes "tokenExpiry w = At e" "date_now env w \<ge> e - 300000"
    and "identity env = Response None
         \<or> (\<exists>b. identity env = Response (Some b) \<and> \<not> truthy (access_token b))"
  shows "getAccessToken env w
         = (Inl ''Authentication failed: Invalid authentication response'',
            w\<lparr>trace := trace w @ [Get_identity]\<rparr>)"
  using assms by (auto simp add: getAccessToken_def authenticate_def Let_def)

lemma getMarketoAccessToken_refreshed:
  assumes "marketoTokenExpiry s = Some e" "e \<le> r_now env s + 300000"
    and "truthy (MARKETO_CLIENT_ID env)" "truthy (MARKETO_CLIENT_SECRET env)"
        "truthy (MARKETO_IDENTITY_URL env)"
    and "r_identity env = Response (Some b)" "access_token b = Some tok'" "tok' \<noteq> []"
        "expires_in b = Some ttl"
  shows "getMarketoAccessToken env s
         = (Inr (Some tok'),
            s\<lparr>requests := requests s @ [Identity_request], marketoAccessToken := Some tok',
              marketoTokenExpiry := Some (r_clock env (Suc (length (requests s))) + ttl * 1000)\<rparr>)"
  using assms
  by (simp add: getMarketoAccessToken_def cached_usable_def TOKEN_EXPIRY_BUFFER_MS_def r_now_def
      Let_def)

lemma getMarketoAccessToken_refresh_failed:
  assumes "marketoTokenExpiry s = Some e" "e \<le> r_now env s + 300000"
    and "truthy (MARKETO_CLIENT_ID env)" "truthy (MARKETO_CLIENT_SECRET env)"
        "truthy (MARKETO_IDENTITY_URL env)"
    and "r_identity env = Failed err"
  shows "getMarketoAccessToken env s
         = (Inl (auth_error_message err), s\<lparr>requests := requests s @ [Identity_request]\<rparr>)"
  using assms
  by (simp add: getMarketoAccessToken_def cached_usable_def TOKEN_EXPIRY_BUFFER_MS_def Let_def)

lemma getMarketoAccessToken_refresh_missing:
  assumes "marketoTokenExpiry s = Some e" "e \<le> r_now env s + 300000"
    and "truthy (MARKETO_CLIENT_ID env)" "truthy (MARKETO_CLIENT_SECRET env)"
        "truthy (MARKETO_IDENTITY_URL env)"
    and "r_identity env = Response None
         \<or> (\<exists>b. r_identity env = Response (Some b)
                \<and> (\<not> truthy (access_token b) \<or> expires_in b = None))"
  shows "getMarketoAccessToken env s
         = (Inl ''Failed to authenticate with Marketo API: Marketo token response missing required fields.'',
            s\<lparr>requests := requests s @ [Identity_request]\<rparr>)"
  using assms
  by (auto simp add: getMarketoAccessToken_def cached_usable_def TOKEN_EXPIRY_BUFFER_MS_def Let_def
      auth_error_message_def split: option.splits)

text \<open>
  Claim C2.  Let a token \<open>tok\<close> be stored with expiry instant \<open>e\<close> (milliseconds), in the
  library client and in the session of the route code; the skew is 5 minutes = 300000 ms.
  A call of \<^verbatim>\<open>getAccessToken\<close> / \<^verbatim>\<open>getMarketoAccessToken\<close> made at \<open>e - skew - 1s\<close> returns
  the cached token and leaves the state as it was, so no request is sent.  A call made at
  \<open>e - skew + 1s\<close> refreshes: it sends exactly one request, to the identity endpoint, and
  its outcome is that of this request.  When the endpoint answers with a token, the call
  returns the new token, not the cached one, and stores it with the expiry computed from
  the answer and the clock; when the request is rejected or its answer lacks the expected
  fields, the call raises the authentication error and returns no token at all.  A stored
  token is never the empty string (both functions store truthy tokens only); the route
  code needs its three credentials to refresh, and its clock reads no negative time.
\<close>

theorem token_skew_window:
  fixes e :: int
  assumes "tok \<noteq> []"
    and "accessToken w = Some tok" "tokenExpiry w = At e"
    and "marketoAccessToken s = Some tok" "marketoTokenExpiry s = Some e"
    and "truthy (MARKETO_CLIENT_ID renv)" "truthy (MARKETO_CLIENT_SECRET renv)"
        "truthy (MARKETO_IDENTITY_URL renv)"
  shows "(date_now env w = e - 300000 - 1000 \<longrightarrow> getAccessToken env w = (Inr (Some tok), w))
       \<and> (date_now env w = e - 300000 + 1000 \<longrightarrow>
            trace (snd (getAccessToken env w)) = trace w @ [Get_identity]
            \<and> (\<forall>b tok'. identity env = Response (Some b) \<and> access_token b = Some tok' \<and> tok' \<noteq> []
                 \<longrightarrow> getAccessToken env w
                     = (Inr (Some tok'),
                        w\<lparr>trace := trace w @ [Get_identity], accessToken := Some tok',
                          tokenExpiry :=
                            (case expires_in b of
                               None \<Rightarrow> NaN
                             | Some ttl \<Rightarrow> At (clock env (Suc (length (trace w))) + ttl * 1000))\<rparr>))
            \<and> (\<forall>err. identity env = Failed err
                 \<longrightarrow> getAccessToken env w
                     = (Inl (''Authentication failed: '' @ err_message err),
                        w\<lparr>trace := trace w @ [Get_identity]\<rparr>))
            \<and> (identity env = Response None
                 \<or> (\<exists>b. identity env = Response (Some b) \<and> \<not> truthy (access_token b))
                 \<longrightarrow> getAccessToken env w
                     = (Inl ''Authentication failed: Invalid authentication response'',
                        w\<lparr>trace := trace w @ [Get_identity]\<rparr>)))
       \<and> (r_now renv s = e - 300000 - 1000 \<and> 0 \<le> r_now renv s \<longrightarrow>
            getMarketoAccessToken renv s = (Inr (Some tok), s))
       \<and> (r_now renv s = e - 300000 + 1000 \<longrightarrow>
            requests (snd (getMarketoAccessToken renv s)) = requests s @ [Identity_request]
            \<and> (\<forall>b tok' ttl. r_identity renv = Response (Some b) \<and> access_token b = Some tok'
                   \<and> tok' \<noteq> [] \<and> expires_in b = Some ttl
                 \<longrightarrow> getMarketoAccessToken renv s
                     = (Inr (Some tok'),
                        s\<lparr>requests := requests s @ [Identity_request],
                          marketoAccessToken := Some tok',
                          marketoTokenExpiry :=
                            Some (r_clock renv (Suc (length (requests s))) + ttl * 1000)\<rparr>))
            \<and> (\<forall>err. r_identity renv = Failed err
                 \<longrightarrow> getMarketoAccessToken renv s
                     = (Inl (auth_error_message err),
                        s\<lparr>requests := requests s @ [Identity_request]\<rparr>))
            \<and> (r_identity renv = Response None
                 \<or> (\<exists>b. r_identity renv = Response (Some b)
                        \<and> (\<not> truthy (access_token b) \<or> expires_in b = None))
                 \<longrightarrow> getMarketoAccessToken renv s
                     = (Inl ''Failed to authenticate with Marketo API: Marketo token response missing required fields.'',
                        s\<lparr>requests := requests s @ [Identity_request]\<rparr>)))"
proof (intro conjI impI allI)
  assume "date_now env w = e - 300000 - 1000"
  then show "getAccessToken env w = (Inr (Some tok), w)"
    using assms by (intro getAccessToken_fresh) auto
next
  assume "date_now env w = e - 300000 + 1000"
  then show "trace (snd (getAccessToken env w)) = trace w @ [Get_identity]"
    using assms by (intro getAccessToken_stale [where e = e]) auto
next
  fix b tok'
  assume "date_now env w = e - 300000 + 1000"
    and "identity env = Response (Some b) \<and> access_token b = Some tok' \<and> tok' \<noteq> []"
  then show "getAccessToken env w
       = (Inr (Some tok'),
          w\<lparr>trace := trace w @ [Get_identity], accessToken := Some tok',
            tokenExpiry := (case expires_in b of
                              None \<Rightarrow> NaN
                            | Some ttl \<Rightarrow> At (clock env (Suc (length (trace w))) + ttl * 1000))\<rparr>)"
    using assms by (intro getAccessToken_refreshed [where e = e]) auto
next
  fix err
  assume "date_now env w = e - 300000 + 1000" and "identity env = Failed err"
  then show "getAccessToken env w
       = (Inl (''Authentication failed: '' @ err_message err), w\<lparr>trace := trace w @ [Get_identity]\<rparr>)"
    using assms by (intro getAccessToken_refresh_failed [where e = e]) auto
next
  assume "date_now env w = e - 300000 + 1000"
    and "identity env = Response None
         \<or> (\<exists>b. identity env = Response (Some b) \<and> \<not> truthy (access_token b))"
  then show "getAccessToken env w
       = (Inl ''Authentication failed: Invalid authentication response'',
          w\<lparr>trace := trace w @ [Get_identity]\<rparr>)"
    using assms by (intro getAccessToken_refresh_invalid [where e = e]) auto
next
  assume "r_now renv s = e - 300000 - 1000 \<and> 0 \<le> r_now renv s"
  then show "getMarketoAccessToken renv s = (Inr (Some tok), s)"
    using assms by (intro getMarketoAccessToken_fresh [where e = e]) auto
next
  assume "r_now renv s = e - 300000 + 1000"
  then show "requests (snd (getMarketoAccessToken renv s)) = requests s @ [Identity_request]"
    using assms by (intro getMarketoAccessToken_stale [where e = e]) auto
next
  fix b tok' ttl
  assume "r_now renv s = e - 300000 + 1000"
    and "r_identity renv = Response (Some b) \<and> access_token b = Some tok'
         \<and> tok' \<noteq> [] \<and> expires_in b = Some ttl"
  then show "getMarketoAccessToken renv s
       = (Inr (Some tok'),
          s\<lparr>requests := requests s @ [Identity_request], marketoAccessToken := Some tok',
            marketoTokenExpiry := Some (r_clock renv (Suc (length (requests s))) + ttl * 1000)\<rparr>)"
    using assms by (intro getMarketoAccessToken_refreshed [where e = e and b = b]) auto
next
  fix err
  assume "r_now renv s = e - 300000 + 1000" and "r_identity renv = Failed err"
  then show "getMarketoAccessToken renv s
       = (Inl (auth_error_message err), s\<lparr>requests := requests s @ [Identity_request]\<rparr>)"
    using assms by (intro getMarketoAccessToken_refresh_failed [where e = e]) auto
next
  assume "r_now renv s = e - 300000 + 1000"
    and "r_identity renv = Response None
         \<or> (\<exists>b. r_identity renv = Response (Some b)
                \<and> (\<not> truthy (access_token b) \<or> expires_in b = None))"
  then show "getMarketoAccessToken renv s
       = (Inl ''Failed to authenticate with Marketo API: Marketo token response missing required fields.'',
          s\<lparr>requests := requests s @ [Identity_request]\<rparr>)"
    using assms by (intro getMarketoAccessToken_refresh_missing [where e = e]) auto
qed

theorem token_skew_window_witness:
  "getAccessToken (lib_env_at 699000) client_at = (Inr (Some ''cached''), client_at)
   \<and> getAccessToken (lib_env_at 701000) client_at
       = (Inr (Some ''fresh''),
          client_at\<lparr>trace := [Get_identity], accessToken := Some ''fresh'',
                    tokenExpiry := At 4301000\<rparr>)
   \<and> getMarketoAccessToken (route_env_at 699000) session_at = (Inr (Some ''cached''), session_at)
   \<and> getMarketoAccessToken (route_env_at 701000) session_at
       = (Inr (Some ''fresh''),
          session_at\<lparr>requests := [Identity_request], marketoAccessToken := Some ''fresh'',
                     marketoTokenExpiry := Some 4301000\<rparr>)"
  using token_skew_window [where tok = "''cached''" and w = client_at and e = 1000000
          and s = session_at and renv = "route_env_at 699000" and env = "lib_env_at 699000"]
    token_skew_window [where tok = "''cached''" and w = client_at and e = 1000000
          and s = session_at and renv = "route_env_at 701000" and env = "lib_env_at 701000"]
  by (simp add: client_at_def session_at_def lib_env_at_def route_env_at_def date_now_def r_now_def
      good_identity_def)

lemma emails_offsets_append [simp]:
  "emails_offsets (xs @ ys) = emails_offsets xs @ emails_offsets ys"
  by (induction xs rule: emails_offsets.induct) auto

lemma getAccessToken_ok:
  assumes "identity env = Response (Some b)" "truthy (access_token b)"
  shows "\<exists>tok w1. getAccessToken env w = (Inr tok, w1)
           \<and> emails_offsets (trace w1) = emails_offsets (trace w)"
  using assms
  by (cases "access_token b") (auto simp: getAccessToken_def authenticate_def Let_def)

lemma offsets_step:
  assumes "m \<le> (n::nat)" "0 < m"
  shows "off # map (\<lambda>k. off + m + k * m) [0..<(n - m) div m + 1]
         = map (\<lambda>k. off + k * m) [0..<n div m + 1]"
proof -
  have d: "n div m = Suc ((n - m) div m)"
    using assms by (simp add: le_div_geq)
  have "[0..<Suc (Suc ((n - m) div m))] = 0 # [Suc 0..<Suc (Suc ((n - m) div m))]"
    by (rule upt_conv_Cons) simp
  also have "[Suc 0..<Suc (Suc ((n - m) div m))] = map Suc [0..<Suc ((n - m) div m)]"
    by (rule map_Suc_upt [symmetric])
  finally have "[0..<Suc (Suc ((n - m) div m))] = 0 # map Suc [0..<Suc ((n - m) div m)]" .
  then show ?thesis
    by (simp add: d comp_def add.assoc del: upt_Suc)
qed

lemma getAllTemplates_loop_honest:
  assumes id: "identity env = Response (Some b)" "truthy (access_token b)"
    and srv: "\<And>offset. emails env offset =
                Response \<lparr>success = True, result = Some (take maxReturn (drop offset coll))\<rparr>"
  shows "\<exists>w'. getAllTemplates_loop env templates offset w = Some (Inr (templates @ drop offset coll), w')
           \<and> emails_offsets (trace w') = emails_offsets (trace w)
               @ map (\<lambda>k. offset + k * maxReturn) [0..<(length coll - offset) div maxReturn + 1]"
proof (induction "length coll - offset" arbitrary: templates offset w rule: less_induct)
  case less
  obtain tok w1 where tk: "getAccessToken env w = (Inr tok, w1)"
      "emails_offsets (trace w1) = emails_offsets (trace w)"
    using getAccessToken_ok [OF id] by blast
  define page where "page = take maxReturn (drop offset coll)"
  define w2 where "w2 = w1\<lparr>trace := trace w1 @ [Get_emails offset]\<rparr>"
  define w3 where "w3 = (if progressCallback env
      then w2\<lparr>trace := trace w2 @ [Progress_count (length (templates @ page))]\<rparr> else w2)"
  have off3: "emails_offsets (trace w3) = emails_offsets (trace w) @ [offset]"
    using tk by (simp add: w3_def w2_def)
  have m: "0 < maxReturn" by (simp add: maxReturn_def)
  show ?case
  proof (cases "length page < maxReturn")
    case True
    then have short: "length coll - offset < maxReturn"
      by (simp add: page_def min_def split: if_splits)
    then have whole: "drop offset coll = page"
      by (simp add: page_def)
    have "getAllTemplates_loop env templates offset w = Some (Inr (templates @ page), w3)"
      by (subst getAllTemplates_loop.simps)
         (simp add: tk srv True Let_def w2_def w3_def flip: page_def)
    with off3 short whole show ?thesis by simp
  next
    case False
    then have long: "maxReturn \<le> length coll - offset"
      by (simp add: page_def min_def split: if_splits)
    have step: "getAllTemplates_loop env templates offset w
                = getAllTemplates_loop env (templates @ page) (offset + maxReturn) w3"
      by (subst getAllTemplates_loop.simps)
         (simp add: tk srv False Let_def w2_def w3_def flip: page_def)
    have "length coll - (offset + maxReturn) < length coll - offset"
      using long m by simp
    from less [OF this, of "templates @ page" w3]
    obtain w' where r: "getAllTemplates_loop env (templates @ page) (offset + maxReturn) w3
          = Some (Inr ((templates @ page) @ drop (offset + maxReturn) coll), w')"
      and t: "emails_offsets (trace w') = emails_offsets (trace w3)
          @ map (\<lambda>k. offset + maxReturn + k * maxReturn)
              [0..<(length coll - (offset + maxReturn)) div maxReturn + 1]"
      by blast
    have "take maxReturn (drop offset coll) @ drop maxReturn (drop offset coll) = drop offset coll"
      by (rule append_take_drop_id)
    then have cat: "page @ drop (offset + maxReturn) coll = drop offset coll"
      by (simp add: page_def add.commute)
    have e: "length coll - (offset + maxReturn) = (length coll - offset) - maxReturn" by simp
    have "emails_offsets (trace w') = emails_offsets (trace w)
            @ (offset # map (\<lambda>k. offset + maxReturn + k * maxReturn)
                 [0..<(length coll - offset - maxReturn) div maxReturn + 1])"
      unfolding t off3 e by (simp only: append_assoc append_Cons append_Nil)
    then have tr: "emails_offsets (trace w') = emails_offsets (trace w)
               @ map (\<lambda>k. offset + k * maxReturn) [0..<(length coll - offset) div maxReturn + 1]"
      by (simp only: offsets_step [OF long m, of offset])
    have res: "getAllTemplates_loop env templates offset w
          = Some (Inr (templates @ drop offset coll), w')"
      unfolding step r by (simp only: append_assoc cat)
    from res tr show ?thesis by blast
  qed
qed

text \<open>
  Claim C5.  When the provider serves a finite collection \<open>coll\<close> in pages of
  \<^verbatim>\<open>maxReturn\<close> = 200 items (the page at an offset holds the items from that offset on, at
  most 200 of them) and answers the identity request with a token, \<^verbatim>\<open>getAllTemplates\<close>
  returns, and returns exactly \<open>coll\<close>, in the order served.  It requests the offsets
  0, 200, ... up to the first page shorter than 200 items and no further:
  \<open>length coll div 200 + 1\<close> page requests.  The library has no page cap, so this holds
  for a collection of any size, in particular for one of at most MAX_PAGES times the page
  size.
\<close>

theorem getAllTemplates_full_collection:
  assumes "identity env = Response (Some b)" "truthy (access_token b)"
    and "\<And>offset. emails env offset =
           Response \<lparr>success = True, result = Some (take maxReturn (drop offset coll))\<rparr>"
  shows "\<exists>w'. getAllTemplates env w = Some (Inr coll, w')
           \<and> emails_offsets (trace w') = emails_offsets (trace w)
               @ map (\<lambda>k. k * maxReturn) [0..<length coll div maxReturn + 1]"
  using getAllTemplates_loop_honest [OF assms, of "[]" 0 w]
  by (simp add: getAllTemplates_def)

lemma pages_437: "map (\<lambda>k. k * maxReturn) [0..<length (replicate 437 (x::template)) div maxReturn + 1] = [0, 200, 400]"
  by (simp add: maxReturn_def upt_rec)

theorem getAllTemplates_full_collection_witness:
  "\<exists>w'. getAllTemplates (serving (replicate 437 template0)) client0
            = Some (Inr (replicate 437 template0), w')
         \<and> emails_offsets (trace w') = [0, 200, 400]"
proof -
  let ?c = "replicate 437 template0"
  have h1: "identity (serving ?c) = Response (Some \<lparr>access_token = Some ''fresh'', expires_in = Some 3600\<rparr>)"
    by (simp add: serving_def good_identity_def)
  have h2: "truthy (access_token \<lparr>access_token = Some ''fresh'', expires_in = Some 3600\<rparr>)"
    by simp
  have h3: "\<And>offset. emails (serving ?c) offset =
              Response \<lparr>success = True, result = Some (take maxReturn (drop offset ?c))\<rparr>"
    by (simp add: serving_def)
  from getAllTemplates_full_collection [OF h1 h2 h3, of client0]
  obtain w' where r: "getAllTemplates (serving ?c) client0 = Some (Inr ?c, w')"
    and t: "emails_offsets (trace w') = emails_offsets (trace client0)
               @ map (\<lambda>k. k * maxReturn) [0..<length ?c div maxReturn + 1]"
    by blast
  have "emails_offsets (trace client0) = []"
    by (simp add: client0_def)
  with t have "emails_offsets (trace w') = [0, 200, 400]"
    by (simp only: pages_437 append_Nil)
  with r show ?thesis by blast
qed

lemma getAllTemplates_loop_endless:
  assumes major: "getAllTemplates_loop env templates offset w = Some y"
  shows "env \<noteq> endless_env"
proof (rule getAllTemplates_loop.raw_induct
    [where P = "\<lambda>env templates offset w y. env \<noteq> endless_env", OF _ major], goal_cases)
  case (1 loop env templates offset w y)
  show ?case
  proof
    assume e: "env = endless_env"
    have "identity env = Response (Some \<lparr>access_token = Some ''fresh'', expires_in = Some 3600\<rparr>)"
      by (simp add: e endless_env_def good_identity_def)
    from getAccessToken_ok [OF this, of w]
    obtain tok w1 where tk: "getAccessToken env w = (Inr tok, w1)" by auto
    have em: "emails env offset = Response \<lparr>success = True, result = Some (replicate 200 template0)\<rparr>"
      by (simp add: e endless_env_def)
    have "\<exists>w3. loop env (templates @ replicate 200 template0) (offset + maxReturn) w3 = Some y"
      using 1(2) by (auto simp add: tk em maxReturn_def Let_def)
    then obtain w3 where "loop env (templates @ replicate 200 template0) (offset + maxReturn) w3 = Some y"
      by auto
    from 1(1) [OF this] e show False by simp
  qed
qed

text \<open>
  The pagination loop of the route code sends at most \<^verbatim>\<open>MAX_PAGES\<close> page requests,
  whatever the provider answers.  Against a provider whose every page is full it stops
  after 50 requests, with 10000 templates and the warning that the page limit was reached
  as its last line, and without raising.
\<close>

lemma fetchPages_requests:
  "length (requests (snd (fetchPages env pageCount offset allTemplates written s)))
   \<le> length (requests s) + (MAX_PAGES - pageCount)"
proof (induction env pageCount offset allTemplates written s rule: fetchPages.induct)
  case (1 env pageCount offset allTemplates written s)
  show ?case
  proof (cases "pageCount + 1 > MAX_PAGES")
    case True
    then show ?thesis by (subst fetchPages.simps) simp
  next
    case False
    let ?s1 = "s\<lparr>requests := requests s @ [Emails_request offset]\<rparr>"
    show ?thesis
    proof (cases "r_emails env offset")
      case (Failed e)
      with False show ?thesis by (subst fetchPages.simps) (simp add: Let_def)
    next
      case (Response d)
      show ?thesis
      proof (cases "d")
        case None
        with Response False show ?thesis by (subst fetchPages.simps) (simp add: Let_def)
      next
        case (Some body)
        show ?thesis
        proof (cases "result body")
          case None
          with Some Response False show ?thesis
            by (subst fetchPages.simps) (simp add: Let_def)
        next
          case (Some page)
          show ?thesis
          proof (cases "length page < pageSize")
            case True
            with Some \<open>d = Some body\<close> Response False show ?thesis
              by (subst fetchPages.simps) (simp add: Let_def)
          next
            case long: False
            have ih: "length (requests (snd (fetchPages env (pageCount + 1) (offset + pageSize)
                        (allTemplates @ page)
                        ((written @ [Fetching_page (pageCount + 1) offset])
                           @ [Fetched_page (pageCount + 1) (length page) (length (allTemplates @ page))])
                        ?s1)))
                  \<le> length (requests ?s1) + (MAX_PAGES - (pageCount + 1))"
              using "1.IH" [OF refl False refl refl Response \<open>d = Some body\<close> Some refl refl long] .
            have "fetchPages env pageCount offset allTemplates written s
                  = fetchPages env (pageCount + 1) (offset + pageSize) (allTemplates @ page)
                        ((written @ [Fetching_page (pageCount + 1) offset])
                           @ [Fetched_page (pageCount + 1) (length page) (length (allTemplates @ page))])
                        ?s1"
              using Some \<open>d = Some body\<close> Response False long
              by (subst fetchPages.simps) (simp add: Let_def)
            with ih False show ?thesis by simp
          qed
        qed
      qed
    qed
  qed
qed


lemma fetchPages_endless:
  "n = MAX_PAGES - pageCount \<Longrightarrow>
   \<exists>ts w s'. fetchPages endless_route_env pageCount offset allTemplates written s
               = (Inr (ts, w @ [Page_limit_reached MAX_PAGES]), s')
            \<and> length (requests s') = length (requests s) + n
            \<and> length ts = length allTemplates + pageSize * n"
proof (induction n arbitrary: pageCount offset allTemplates written s)
  case 0
  then have "pageCount + 1 > MAX_PAGES" by simp
  then show ?case by (subst fetchPages.simps) simp
next
  case (Suc n)
  then have small: "\<not> pageCount + 1 > MAX_PAGES" and n: "n = MAX_PAGES - (pageCount + 1)"
    by simp_all
  let ?s1 = "s\<lparr>requests := requests s @ [Emails_request offset]\<rparr>"
  let ?all = "allTemplates @ replicate 200 template0"
  let ?w = "(written @ [Fetching_page (pageCount + 1) offset])
              @ [Fetched_page (pageCount + 1) 200 (length ?all)]"
  have step: "fetchPages endless_route_env pageCount offset allTemplates written s
        = fetchPages endless_route_env (pageCount + 1) (offset + pageSize) ?all ?w ?s1"
    using small
    by (subst fetchPages.simps) (simp add: endless_route_env_def pageSize_def Let_def)
  from Suc.IH [OF n, of "offset + pageSize" ?all ?w ?s1]
  obtain ts w s' where
      "fetchPages endless_route_env (pageCount + 1) (offset + pageSize) ?all ?w ?s1
         = (Inr (ts, w @ [Page_limit_reached MAX_PAGES]), s')"
      "length (requests s') = length (requests ?s1) + n"
      "length ts = length ?all + pageSize * n"
    by blast
  with step show ?case
    by (auto simp: pageSize_def)
qed

lemma fetchPages_endless_run:
  "\<exists>ts w s'. fetchPages endless_route_env 0 0 [] [] session0
               = (Inr (ts, w @ [Page_limit_reached 50]), s')
            \<and> length (requests s') = 50 \<and> length ts = 10000"
  using fetchPages_endless [of 50 0 0 "[]" "[]" session0]
  by (simp add: MAX_PAGES_def pageSize_def session0_def)

text \<open>
  Claim C1.  The library's \<^verbatim>\<open>getAllTemplates\<close> has no cap on the number of page requests:
  against a provider whose every page is full it never returns.
\<close>

theorem getAllTemplates_never_returns:
  "getAllTemplates endless_env client0 = None"
proof (cases "getAllTemplates endless_env client0")
  case None
  then show ?thesis .
next
  case (Some y)
  then have "getAllTemplates_loop endless_env [] 0 client0 = Some y"
    by (simp add: getAllTemplates_def)
  from getAllTemplates_loop_endless [OF this] show ?thesis by simp
qed

lemma terminated_append:
  "terminated sep (xs @ ys) = terminated sep xs @ terminated sep ys"
  by (simp add: terminated_def)

lemma collect_items_terminated:
  "collect_items sep acc items
   = acc @ terminated sep (map item_value (filter (\<lambda>i. item_type i = ''HTML'') items))"
  by (induction items arbitrary: acc) (simp_all add: terminated_def)

lemma collect_sections_terminated:
  "collect_sections sep acc ss = acc @ terminated sep (fragments ss)"
proof (induction ss arbitrary: acc)
  case Nil
  show ?case by (simp add: fragments_def terminated_def)
next
  case (Cons s ss)
  have head: "(case content s of
                 None \<Rightarrow> (case sec_value s of None \<Rightarrow> acc | Some items \<Rightarrow> collect_items sep acc items)
               | Some c \<Rightarrow>
                   if contentType s = Some ''html'' \<and> c \<noteq> []
                   then (case sec_value s of None \<Rightarrow> acc | Some items \<Rightarrow> collect_items sep acc items) @ c @ sep
                   else (case sec_value s of None \<Rightarrow> acc | Some items \<Rightarrow> collect_items sep acc items))
              = acc @ terminated sep (section_fragments s)"
    by (simp add: section_fragments_def collect_items_terminated terminated_def
        split: option.split)
  have "fragments (s # ss) = section_fragments s @ fragments ss"
    by (simp add: fragments_def)
  then show ?case
    by (simp add: Let_def head Cons.IH terminated_append)
qed

text \<open>
  Claim C6, as the code has it.  For every list of content sections, each flattening loop
  collects, section by section in input order, the values of the items whose type is HTML
  and then the inline content of a section whose content type is \<^verbatim>\<open>html\<close>, skips the empty
  ones, and appends a terminator after every fragment it keeps: one newline in the
  library's \<^verbatim>\<open>extractHtmlContent\<close>, a blank line (two newlines) in
  \<^verbatim>\<open>fetchContentJsonBackup\<close>, the separator comment in \<^verbatim>\<open>fetchEmailHtmlContent\<close>.  For the
  two-section example both fragments come out in input order, one newline after each in
  the library and a blank line after each in the backup.
\<close>

theorem flattening_terminates_fragments:
  "extractHtmlContent sections = terminated nl (fragments sections)
   \<and> backup_collectedHtml sections = terminated (nl @ nl) (fragments sections)
   \<and> helper_collectedHtml sections = terminated section_separator (fragments sections)
   \<and> fragments two_sections = [''<p>a</p>'', ''<p>b</p>'']
   \<and> extractHtmlContent two_sections = ''<p>a</p>'' @ nl @ ''<p>b</p>'' @ nl
   \<and> backup_collectedHtml two_sections = ''<p>a</p>'' @ nl @ nl @ ''<p>b</p>'' @ nl @ nl"
  by (simp add: extractHtmlContent_def backup_collectedHtml_def helper_collectedHtml_def
      collect_sections_terminated)
     (simp add: two_sections_def fragments_def section_fragments_def terminated_def)

text \<open>
  Claim C6 as stated fails for the library: on the two-section example the fragments are
  one newline apart, which is neither a blank line nor a separator marker between them.
\<close>

theorem extractHtmlContent_no_blank_line:
  "extractHtmlContent two_sections = ''<p>a</p>'' @ nl @ ''<p>b</p>'' @ nl
   \<and> extractHtmlContent two_sections \<noteq> join (nl @ nl) (fragments two_sections)
   \<and> extractHtmlContent two_sections \<noteq> join section_separator (fragments two_sections)"
  by (simp add: extractHtmlContent_def two_sections_def fragments_def section_fragments_def
      nl_def section_separator_def)

lemma mkdirs_append [simp]: "mkdirs (xs @ ys) = mkdirs xs @ mkdirs ys"
  by (induction xs rule: mkdirs.induct) auto

lemma authenticate_mkdirs:
  "authenticate env w = (r, w1) \<Longrightarrow> mkdirs (trace w1) = mkdirs (trace w)"
  by (auto simp: authenticate_def Let_def split: http.splits option.splits if_splits)

lemma getAccessToken_mkdirs:
  "getAccessToken env w = (r, w1) \<Longrightarrow> mkdirs (trace w1) = mkdirs (trace w)"
  by (auto simp: getAccessToken_def split: if_splits prod.splits sum.splits
      dest: authenticate_mkdirs)

lemma getTemplateContent_mkdirs:
  "getTemplateContent env i w = (r, w1) \<Longrightarrow> mkdirs (trace w1) = mkdirs (trace w)"
  by (auto simp: getTemplateContent_def Let_def
      split: if_splits prod.splits sum.splits http.splits dest: getAccessToken_mkdirs)

lemma writeFile_mkdirs:
  "writeFile env p c w = (r, w1) \<Longrightarrow> mkdirs (trace w1) = mkdirs (trace w)"
  by (auto simp: writeFile_def Let_def split: option.splits)

lemma mkdir_mkdirs:
  "mkdir env p w = (r, w1) \<Longrightarrow> mkdirs (trace w1) = mkdirs (trace w) @ [p]"
  by (auto simp: mkdir_def Let_def split: option.splits)

lemma saveHtml_mkdirs:
  assumes "saveHtml env t d w = (r, w1)"
  shows "mkdirs (trace w1) = mkdirs (trace w)"
proof -
  obtain r0 w0 where a: "getTemplateContent env (tid t) w = (r0, w0)"
    by (cases "getTemplateContent env (tid t) w")
  note g = getTemplateContent_mkdirs [OF a]
  show ?thesis
  proof (cases r0)
    case (Inl m)
    with assms a g show ?thesis by (simp add: saveHtml_def)
  next
    case (Inr html)
    show ?thesis
    proof (cases "html = []")
      case True
      with assms a g Inr show ?thesis by (simp add: saveHtml_def)
    next
      case False
      with assms a Inr
      have "writeFile env (path_join env d (tid t @ ''.html'')) (Text html) w0 = (r, w1)"
        by (simp add: saveHtml_def)
      from writeFile_mkdirs [OF this] g show ?thesis by simp
    qed
  qed
qed

lemma exportTemplate_mkdirs:
  assumes "exportTemplate env t out w = (r, w')"
  shows "mkdirs (trace w') = mkdirs (trace w) @ [path_join env out (''template_'' @ tid t)]"
proof -
  let ?d = "path_join env out (''template_'' @ tid t)"
  obtain r1 w1 where a: "mkdir env ?d w = (r1, w1)" by (cases "mkdir env ?d w")
  obtain r2 w2 where b: "writeFile env (path_join env ?d ''metadata.json'') (Json t) w1 = (r2, w2)"
    by (cases "writeFile env (path_join env ?d ''metadata.json'') (Json t) w1")
  obtain r3 w3 where c: "saveHtml env t ?d w2 = (r3, w3)" by (cases "saveHtml env t ?d w2")
  obtain r4 w4 where d: "writeFile env (path_join env ?d ''error.txt'')
      (Text (''Error retrieving HTML content: '' @ (case r3 of Inl m \<Rightarrow> m | Inr _ \<Rightarrow> []))) w3 = (r4, w4)"
    by (cases "writeFile env (path_join env ?d ''error.txt'')
      (Text (''Error retrieving HTML content: '' @ (case r3 of Inl m \<Rightarrow> m | Inr _ \<Rightarrow> []))) w3")
  note m = mkdir_mkdirs [OF a] writeFile_mkdirs [OF b] saveHtml_mkdirs [OF c] writeFile_mkdirs [OF d]
  from assms show ?thesis
    using m a b c d
    by (cases r1; cases r2; cases r3; cases r4) (auto simp: exportTemplate_def Let_def)
qed

lemma exportOne_facts:
  assumes "exportOne env out t (r, w) = (r', w')"
  shows "total r' = total r"
    and "successful r' + failed r' = successful r + failed r + 1"
    and "length (errors r') + failed r = length (errors r) + failed r'"
    and "mkdirs (trace w') = mkdirs (trace w) @ [path_join env out (''template_'' @ tid t)]"
    and "\<exists>es. errors r' = errors r @ es"
    and "failed r \<le> failed r'"
proof -
  obtain x w1 where a: "exportTemplate env t out w = (x, w1)"
    by (cases "exportTemplate env t out w")
  note m = exportTemplate_mkdirs [OF a]
  from assms a m
  show "total r' = total r"
    and "successful r' + failed r' = successful r + failed r + 1"
    and "length (errors r') + failed r = length (errors r) + failed r'"
    and "mkdirs (trace w') = mkdirs (trace w) @ [path_join env out (''template_'' @ tid t)]"
    and "\<exists>es. errors r' = errors r @ es"
    and "failed r \<le> failed r'"
    by (cases x; auto simp: exportOne_def Let_def split: if_splits)+
qed

lemma exportOne_raised:
  assumes "exportTemplate env t out w = (Inl m, w1)"
    and "exportOne env out t (r, w) = (r', w')"
  shows "errors r' = errors r @ [\<lparr>templateId = tid t, error = m\<rparr>]"
    and "failed r' = failed r + 1"
    and "successful r' = successful r"
  using assms by (auto simp: exportOne_def Let_def split: if_splits)

lemma exportOne_exported:
  assumes "exportTemplate env t out w = (Inr d, w1)"
    and "exportOne env out t (r, w) = (r', w')"
  shows "errors r' = errors r"
    and "failed r' = failed r"
    and "successful r' = successful r + 1"
  using assms by (auto simp: exportOne_def Let_def split: if_splits)

lemma exportLoop_append:
  "exportLoop env out (xs @ ys) rw = exportLoop env out ys (exportLoop env out xs rw)"
  by (induction xs arbitrary: rw) simp_all

lemma exportLoop_facts:
  assumes "exportLoop env out ts (r, w) = (r', w')"
  shows "total r' = total r
       \<and> successful r' + failed r' = successful r + failed r + length ts
       \<and> length (errors r') + failed r = length (errors r) + failed r'
       \<and> mkdirs (trace w') = mkdirs (trace w) @ map (\<lambda>t. path_join env out (''template_'' @ tid t)) ts
       \<and> (\<exists>es. errors r' = errors r @ es)
       \<and> failed r \<le> failed r'"
  using assms
proof (induction ts arbitrary: r w)
  case Nil
  then show ?case by simp
next
  case (Cons t ts)
  obtain r1 w1 where a: "exportOne env out t (r, w) = (r1, w1)"
    by (cases "exportOne env out t (r, w)")
  with Cons.prems have b: "exportLoop env out ts (r1, w1) = (r', w')" by simp
  note f = exportOne_facts [OF a]
  note g = Cons.IH [OF b]
  from f(5) g obtain es es' where "errors r1 = errors r @ es" "errors r' = errors r1 @ es'"
    by blast
  then have "errors r' = errors r @ (es @ es')" by simp
  then have e: "\<exists>es. errors r' = errors r @ es" by blast
  from f g e show ?case by simp
qed

lemma refusing_env_lists:
  "getAllTemplates refusing_env client0 = Some (Inr five_templates, listed)"
  unfolding getAllTemplates_def
  by (subst getAllTemplates_loop.simps)
     (simp add: refusing_env_def client0_def listed_def getAccessToken_def authenticate_def
        good_identity_def date_now_def Let_def five_templates_def maxReturn_def)

lemma no_content_env_lists:
  "getAllTemplates no_content_env client0 = Some (Inr [template0], listed)"
  unfolding getAllTemplates_def
  by (subst getAllTemplates_loop.simps)
     (simp add: no_content_env_def client0_def listed_def getAccessToken_def authenticate_def
        good_identity_def date_now_def Let_def maxReturn_def)

lemmas export_defs =
  exportOne_def exportTemplate_def saveHtml_def getTemplateContent_def getAccessToken_def
  mkdir_def writeFile_def slash_join_def date_now_def Let_def extractHtmlContent_def

lemma refusing_env_run:
  "fst (exportLoop refusing_env ''out'' five_templates
          (\<lparr>total = 5, successful = 0, failed = 0, errors = []\<rparr>, listed))
     = \<lparr>total = 5, successful = 4, failed = 1,
        errors = [\<lparr>templateId = ''3'', error = ''EACCES: permission denied''\<rparr>]\<rparr>"
  by (simp add: export_defs refusing_env_def listed_def five_templates_def numbered_def
      template0_def html_body_def nl_def)


lemma exportAllTemplates_listed:
  assumes "getAllTemplates env w = Some (Inr ts, w0)"
  shows "exportAllTemplates env out w
         = Some (Inr (fst (exportLoop env out ts
                        (\<lparr>total = length ts, successful = 0, failed = 0, errors = []\<rparr>, w0))),
                 snd (exportLoop env out ts
                        (\<lparr>total = length ts, successful = 0, failed = 0, errors = []\<rparr>, w0)))"
  using assms by (simp add: exportAllTemplates_def split: prod.splits)

lemma exportOne_one_counter:
  "case exportOne env out t (r0, w0) of
     (r1, w1) \<Rightarrow>
       (successful r1 = successful r0 + 1 \<and> failed r1 = failed r0 \<and> errors r1 = errors r0)
       \<or> (successful r1 = successful r0 \<and> failed r1 = failed r0 + 1
          \<and> (\<exists>m. errors r1 = errors r0 @ [\<lparr>templateId = tid t, error = m\<rparr>]))"
proof -
  obtain x w1 where a: "exportTemplate env t out w0 = (x, w1)"
    by (cases "exportTemplate env t out w0")
  obtain r1 w2 where b: "exportOne env out t (r0, w0) = (r1, w2)"
    by (cases "exportOne env out t (r0, w0)")
  show ?thesis
  proof (cases x)
    case (Inl m)
    with a b exportOne_raised [of env t out w0 m w1 r0 r1 w2] show ?thesis by auto
  next
    case (Inr d)
    with a b exportOne_exported [of env t out w0 d w1 r0 r1 w2] show ?thesis by auto
  qed
qed

lemma exportTemplate_refused:
  assumes "fs_error env (path_join env out (''template_'' @ tid t)) = Some m"
  shows "exportTemplate env t out w
         = (Inl m, w\<lparr>trace := trace w @ [Mkdir (path_join env out (''template_'' @ tid t))]\<rparr>)"
  using assms by (simp add: exportTemplate_def mkdir_def Let_def)

text \<open>
  Claim C10.  Whenever the listing returns the templates \<open>ts\<close>, \<^verbatim>\<open>exportAllTemplates\<close>
  returns a result, and that result satisfies \<open>total = length ts\<close>,
  \<open>total = successful + failed\<close> and \<open>length errors = failed\<close>.  Each pass of the
  loop body increments exactly one of the two counters, and appends exactly one entry
  \<open>{templateId, error}\<close> for the template at hand when it is the failure counter.
\<close>

theorem export_result_counts:
  assumes "getAllTemplates env w = Some (Inr ts, w0)"
  shows "(\<exists>r w'. exportAllTemplates env out w = Some (Inr r, w')
           \<and> total r = length ts
           \<and> total r = successful r + failed r
           \<and> length (errors r) = failed r)
       \<and> (\<forall>t r0 w0.
             case exportOne env out t (r0, w0) of
               (r1, w1) \<Rightarrow>
                 (successful r1 = successful r0 + 1 \<and> failed r1 = failed r0
                  \<and> errors r1 = errors r0)
                 \<or> (successful r1 = successful r0 \<and> failed r1 = failed r0 + 1
                    \<and> (\<exists>m. errors r1 = errors r0 @ [\<lparr>templateId = tid t, error = m\<rparr>])))"
proof -
  let ?r0 = "\<lparr>total = length ts, successful = 0, failed = 0, errors = []\<rparr>"
  obtain r w' where l: "exportLoop env out ts (?r0, w0) = (r, w')"
    by (cases "exportLoop env out ts (?r0, w0)")
  from exportLoop_facts [OF l]
  have "total r = length ts" "total r = successful r + failed r" "length (errors r) = failed r"
    by simp_all
  moreover have "exportAllTemplates env out w = Some (Inr r, w')"
    using exportAllTemplates_listed [OF assms, of out] l by simp
  ultimately have "\<exists>r w'. exportAllTemplates env out w = Some (Inr r, w')
           \<and> total r = length ts
           \<and> total r = successful r + failed r
           \<and> length (errors r) = failed r"
    by blast
  then show ?thesis
    by (intro conjI allI exportOne_one_counter)
qed

lemma length_five_templates: "length five_templates = 5"
  by (simp add: five_templates_def)

theorem export_result_counts_witness:
  "\<exists>r w'. exportAllTemplates refusing_env ''out'' client0 = Some (Inr r, w')
           \<and> total r = 5
           \<and> total r = successful r + failed r
           \<and> length (errors r) = failed r"
proof -
  from export_result_counts [OF refusing_env_lists, of "''out''"]
  obtain r w' where "exportAllTemplates refusing_env ''out'' client0 = Some (Inr r, w')"
    and "total r = length five_templates"
    and "total r = successful r + failed r"
    and "length (errors r) = failed r"
    by blast
  then show ?thesis
    by (intro exI [of _ r] exI [of _ w'] conjI) (simp_all add: length_five_templates)
qed

text \<open>
  Claim C3.  In the library a failed HTML retrieval is caught inside \<^verbatim>\<open>exportTemplate\<close>:
  the marker \<^verbatim>\<open>error.txt\<close> is written next to \<^verbatim>\<open>metadata.json\<close> and no HTML file, but
  nothing is thrown on, so \<^verbatim>\<open>exportAllTemplates\<close> counts the template as successful and
  records no error.
\<close>

theorem content_failure_counted_successful:
  "(case exportAllTemplates no_content_env ''out'' client0 of
      Some (Inr r, w) \<Rightarrow>
        r = \<lparr>total = 1, successful = 1, failed = 0, errors = []\<rparr>
        \<and> files w ''out/template_7/error.txt''
            = Some (Text ''Error retrieving HTML content: Failed to fetch template content for ID 7'')
        \<and> files w ''out/template_7/7.html'' = None
        \<and> files w ''out/template_7/metadata.json'' = Some (Json template0)
    | _ \<Rightarrow> False)"
  by (simp add: exportAllTemplates_listed [OF no_content_env_lists])
     (simp add: export_defs no_content_env_def listed_def template0_def)

lemma getMarketoAccessToken_ok:
  assumes "can_authenticate env"
  shows "\<exists>tok s1. getMarketoAccessToken env s = (Inr tok, s1)"
proof (cases "cached_usable env s")
  case True
  then show ?thesis by (simp add: getMarketoAccessToken_def)
next
  case False
  from assms obtain b where b: "r_identity env = Response (Some b)"
      "truthy (access_token b)" "expires_in b \<noteq> None"
    by (auto simp: can_authenticate_def split: http.splits option.splits)
  then obtain tok ttl where "access_token b = Some tok" "tok \<noteq> []" "expires_in b = Some ttl"
    by (cases "access_token b"; cases "expires_in b") auto
  with assms b False show ?thesis
    by (simp add: getMarketoAccessToken_def can_authenticate_def Let_def)
qed

lemma getFolderDetails_found:
  assumes "can_authenticate env" "i \<noteq> 0"
  shows "\<exists>s1. getFolderDetails env (Some i) s = (Inr (found env i), s1)"
proof -
  from getMarketoAccessToken_ok [OF assms(1), of s]
  obtain tok s1 where "getMarketoAccessToken env s = (Inr tok, s1)" by blast
  with assms(2) show ?thesis
    by (simp add: getFolderDetails_def found_def Let_def
        split: http.split option.split list.split)
qed

lemma getFolderDetails_cases:
  assumes "i \<noteq> 0"
  shows "(\<exists>m s1. getFolderDetails env (Some i) s = (Inl m, s1))
       \<or> (\<exists>s1. getFolderDetails env (Some i) s = (Inr (found env i), s1))"
proof -
  obtain r s1 where a: "getMarketoAccessToken env s = (r, s1)"
    by (cases "getMarketoAccessToken env s")
  show ?thesis
  proof (cases r)
    case (Inl m)
    with a assms show ?thesis by (simp add: getFolderDetails_def)
  next
    case (Inr tok)
    with a assms show ?thesis
      by (simp add: getFolderDetails_def found_def Let_def
          split: http.split option.split list.split)
  qed
qed

lemma parent_id_nonzero: "parent_id fd = Some p \<Longrightarrow> p \<noteq> 0"
  by (auto simp: parent_id_def split: option.splits if_splits)

lemma buildFolderPath_climbs:
  assumes "can_authenticate env"
  shows "i \<noteq> 0 \<Longrightarrow> climbs env i chain
         \<Longrightarrow> \<exists>s'. buildFolderPath env (Some i) s = Some (Inr (rev chain), s')"
proof (induction chain arbitrary: i s)
  case Nil
  from getFolderDetails_found [OF assms Nil(1), of s]
  obtain s1 where "getFolderDetails env (Some i) s = (Inr (found env i), s1)" by blast
  with Nil show ?case
    by (subst buildFolderPath.simps) simp
next
  case (Cons c rest)
  from getFolderDetails_found [OF assms Cons.prems(1), of s]
  obtain s1 where g: "getFolderDetails env (Some i) s = (Inr (found env i), s1)" by blast
  from Cons.prems(2) have f: "found env i = Some c" by simp
  show ?case
  proof (cases "parent_id c")
    case None
    with Cons.prems(2) have "rest = []" by simp
    with g f None Cons.prems(1) show ?thesis
      by (subst buildFolderPath.simps) simp
  next
    case (Some p)
    with Cons.prems(2) have cl: "climbs env p rest" by simp
    from Cons.IH [OF parent_id_nonzero [OF Some] cl, of s1]
    obtain s2 where "buildFolderPath env (Some p) s1 = Some (Inr (rev rest), s2)" by blast
    with g f Some Cons.prems(1) show ?thesis
      by (subst buildFolderPath.simps) simp
  qed
qed

lemma buildFolderPath_returns:
  "climbs env i chain \<Longrightarrow> \<exists>r. buildFolderPath env (Some i) s = Some r"
proof (induction chain arbitrary: i s)
  case Nil
  show ?case
  proof (cases "i = 0")
    case True
    then show ?thesis by (subst buildFolderPath.simps) simp
  next
    case False
    from getFolderDetails_cases [OF False, of env s] Nil False show ?thesis
      by (subst buildFolderPath.simps) auto
  qed
next
  case (Cons c rest)
  show ?case
  proof (cases "i = 0")
    case True
    then show ?thesis by (subst buildFolderPath.simps) simp
  next
    case False
    from Cons.prems have f: "found env i = Some c" by simp
    from getFolderDetails_cases [OF False, of env s]
    show ?thesis
    proof
      assume "\<exists>m s1. getFolderDetails env (Some i) s = (Inl m, s1)"
      with False show ?thesis by (subst buildFolderPath.simps) auto
    next
      assume "\<exists>s1. getFolderDetails env (Some i) s = (Inr (found env i), s1)"
      then obtain s1 where g: "getFolderDetails env (Some i) s = (Inr (Some c), s1)"
        using f by auto
      show ?thesis
      proof (cases "parent_id c")
        case None
        with g False show ?thesis by (subst buildFolderPath.simps) simp
      next
        case (Some p)
        with Cons.prems have "climbs env p rest" by simp
        from Cons.IH [OF this, of s1]
        obtain r where "buildFolderPath env (Some p) s1 = Some r" by blast
        with g False Some show ?thesis
          by (subst buildFolderPath.simps) (cases r; cases "fst r"; simp)
      qed
    qed
  qed
qed

lemma serve_folders_can_authenticate: "can_authenticate (serve_folders tree)"
  by (simp add: can_authenticate_def serve_folders_def route_env_at_def good_identity_def)

lemma found_serve_folders: "found (serve_folders tree) i = tree i"
  by (simp add: found_def serve_folders_def split: option.split)

lemma chain_tree_climbs:
  "climbs (serve_folders chain_tree) 4 [folder_A, folder_B, folder_C, folder_root]"
  by (simp add: found_serve_folders chain_tree_def parent_id_def
      folder_A_def folder_B_def folder_C_def folder_root_def)

lemma orphan_tree_climbs:
  "climbs (serve_folders orphan_tree) 2 [orphan]"
  "climbs (serve_folders orphan_tree) 1 []"
  by (simp_all add: found_serve_folders orphan_tree_def parent_id_def orphan_def)

text \<open>
  Claim C8.  Let the walk from folder \<open>i\<close> find the folders of \<open>chain\<close>, from the given
  folder up to a folder without parent (so the chain is finite and acyclic and every
  lookup succeeds), and let the token be obtainable.  Then \<^verbatim>\<open>buildFolderPath\<close> returns
  the chain reversed, that is from the root to the given folder: for A, B, C, root it
  returns [root, C, B, A].  For an absent folder identifier it returns the empty list.
\<close>

theorem buildFolderPath_root_to_leaf:
  assumes "can_authenticate env" "i \<noteq> 0" "climbs env i chain"
    and "chain \<noteq> []" "parent_id (last chain) = None"
  shows "(\<exists>s'. buildFolderPath env (Some i) s = Some (Inr (rev chain), s'))
       \<and> buildFolderPath env None s = Some (Inr [], s)
       \<and> buildFolderPath env (Some 0) s = Some (Inr [], s)"
proof (intro conjI)
  show "\<exists>s'. buildFolderPath env (Some i) s = Some (Inr (rev chain), s')"
    using buildFolderPath_climbs [OF assms(1-3)] .
  show "buildFolderPath env None s = Some (Inr [], s)"
    by (subst buildFolderPath.simps) simp
  show "buildFolderPath env (Some 0) s = Some (Inr [], s)"
    by (subst buildFolderPath.simps) simp
qed

theorem buildFolderPath_root_to_leaf_witness:
  "(\<exists>s'. buildFolderPath (serve_folders chain_tree) (Some 4) session0
           = Some (Inr [folder_root, folder_C, folder_B, folder_A], s'))
   \<and> buildFolderPath (serve_folders chain_tree) None session0 = Some (Inr [], session0)"
proof -
  have r: "parent_id (last [folder_A, folder_B, folder_C, folder_root]) = None"
    by (simp add: parent_id_def folder_root_def)
  from buildFolderPath_root_to_leaf [OF serve_folders_can_authenticate _ chain_tree_climbs _ r,
      of session0]
  show ?thesis by simp
qed

text \<open>
  Claim C4, as the code has it.  Let the token be obtainable and let the walk from folder
  \<open>i\<close> end after the folders of \<open>chain\<close>.  \<^verbatim>\<open>buildFolderPath\<close> does not raise and returns the
  folders found, root side first.  That path is empty exactly when the lookup of \<open>i\<close>
  itself finds nothing; a lookup that fails further up leaves the folders found below it
  in the path.  \<^verbatim>\<open>formatFolderPath\<close> renders the empty path as \<^verbatim>\<open>Unknown Location\<close>.
\<close>

theorem buildFolderPath_missing_folder:
  assumes "can_authenticate env" "i \<noteq> 0" "climbs env i chain"
  shows "(\<exists>s'. buildFolderPath env (Some i) s = Some (Inr (rev chain), s'))
       \<and> (rev chain = []) = (found env i = None)
       \<and> formatFolderPath [] = ''Unknown Location''"
proof (intro conjI)
  show "\<exists>s'. buildFolderPath env (Some i) s = Some (Inr (rev chain), s')"
    using buildFolderPath_climbs [OF assms] .
  show "(rev chain = []) = (found env i = None)"
    using assms(3) by (cases chain) auto
  show "formatFolderPath [] = ''Unknown Location''"
    by (simp add: formatFolderPath_def)
qed

theorem buildFolderPath_missing_folder_witness:
  "(\<exists>s'. buildFolderPath (serve_folders orphan_tree) (Some 1) session0 = Some (Inr [], s'))
   \<and> (\<exists>s'. buildFolderPath (serve_folders orphan_tree) (Some 2) session0 = Some (Inr [orphan], s'))
   \<and> found (serve_folders orphan_tree) 1 = None
   \<and> formatFolderPath [] = ''Unknown Location''"
proof -
  from buildFolderPath_missing_folder [OF serve_folders_can_authenticate _ orphan_tree_climbs(2),
      of session0]
  have a: "\<exists>s'. buildFolderPath (serve_folders orphan_tree) (Some 1) session0 = Some (Inr [], s')"
    and c: "formatFolderPath [] = ''Unknown Location''"
    by simp_all
  from buildFolderPath_missing_folder [OF serve_folders_can_authenticate _ orphan_tree_climbs(1),
      of session0]
  have b: "\<exists>s'. buildFolderPath (serve_folders orphan_tree) (Some 2) session0 = Some (Inr [orphan], s')"
    by simp
  have "found (serve_folders orphan_tree) 1 = None"
    by (simp add: found_serve_folders orphan_tree_def)
  with a b c show ?thesis by blast
qed

text \<open>
  Claim C4 as stated fails: for a folder whose parent is not found, the path returned is
  not empty, and it is formatted as the folder's name.
\<close>

theorem buildFolderPath_keeps_orphan:
  "map_option fst (buildFolderPath (serve_folders orphan_tree) (Some 2) session0)
     = Some (Inr [orphan])
   \<and> found (serve_folders orphan_tree) 1 = None
   \<and> formatFolderPath [orphan] = ''Child''"
proof -
  from buildFolderPath_climbs [OF serve_folders_can_authenticate _ orphan_tree_climbs(1),
      of session0]
  obtain s' where "buildFolderPath (serve_folders orphan_tree) (Some 2) session0
      = Some (Inr [orphan], s')"
    by auto
  then show ?thesis
    by (simp add: found_serve_folders orphan_tree_def formatFolderPath_def orphan_def)
qed

text \<open>
  Claim C9, as the code has it.  When the walk from folder \<open>i\<close> ends after finitely many
  lookups, \<^verbatim>\<open>buildFolderPath\<close> returns (a path, or the error of a failed authentication).
\<close>

theorem buildFolderPath_terminates_on_finite_chain:
  assumes "climbs env i chain"
  shows "\<exists>r. buildFolderPath env (Some i) s = Some r"
  using buildFolderPath_returns [OF assms] .

theorem buildFolderPath_terminates_on_finite_chain_witness:
  "\<exists>r. buildFolderPath (serve_folders chain_tree) (Some 4) session0 = Some r"
  using buildFolderPath_terminates_on_finite_chain [OF chain_tree_climbs] .

lemma buildFolderPath_cycle:
  assumes major: "buildFolderPath env folderId s = Some y"
  shows "env \<noteq> serve_folders cyclic_tree \<or> (folderId \<noteq> Some 1 \<and> folderId \<noteq> Some 2)"
proof (rule buildFolderPath.raw_induct
    [where P = "\<lambda>env folderId s y.
        env \<noteq> serve_folders cyclic_tree \<or> (folderId \<noteq> Some 1 \<and> folderId \<noteq> Some 2)",
     OF _ major], goal_cases)
  case (1 walk env folderId s y)
  show ?case
  proof (rule ccontr)
    assume "\<not> ?case"
    then have e: "env = serve_folders cyclic_tree" and i: "folderId = Some 1 \<or> folderId = Some 2"
      by auto
    have ca: "can_authenticate env"
      by (simp add: e serve_folders_can_authenticate)
    from i obtain j c p where j: "folderId = Some j" "j \<noteq> 0" "found env j = Some c"
        "parent_id c = Some p" "p = 1 \<or> p = 2"
      by (auto simp: e found_serve_folders cyclic_tree_def parent_id_def cycle_A_def cycle_B_def)
    from getFolderDetails_found [OF ca j(2), of s] j(3)
    obtain s1 where g: "getFolderDetails env (Some j) s = (Inr (Some c), s1)" by auto
    from 1(2) have "\<exists>y'. walk env (Some p) s1 = Some y'"
      by (simp add: j g split: Option.bind_splits)
    then obtain y' where "walk env (Some p) s1 = Some y'" by blast
    from 1(1) [OF this] e j(5) show False by auto
  qed
qed

text \<open>
  Claim C9 as stated fails: the code keeps no record of the folders it has visited, and for
  two folders that are each other's parent the recursion never returns.
\<close>

theorem buildFolderPath_cycle_never_returns:
  "buildFolderPath (serve_folders cyclic_tree) (Some 1) session0 = None"
proof (cases "buildFolderPath (serve_folders cyclic_tree) (Some 1) session0")
  case None
  then show ?thesis .
next
  case (Some y)
  from buildFolderPath_cycle [OF this] show ?thesis by simp
qed

lemma settled_append [simp]: "settled (xs @ ys) = settled xs @ settled ys"
  by (induction xs rule: settled.induct) auto

lemma error_lines_append [simp]: "error_lines (xs @ ys) = error_lines xs @ error_lines ys"
  by (induction xs rule: error_lines.induct) auto

lemma settleTemplate_raised:
  assumes "processTemplate env t dir st = Some (Inl m, st1)"
  shows "settleTemplate env dir n t (c, written, st)
         = Some (c\<lparr>processedCount := processedCount c + 1, errorCount := errorCount c + 1\<rparr>,
                 written @ [Error_processing (tid t) (tname t) m], st1)"
  using assms by (simp add: settleTemplate_def)

lemma settleTemplate_processed:
  assumes "processTemplate env t dir st = Some (Inr b, st1)"
  shows "settleTemplate env dir n t (c, written, st)
         = Some (c\<lparr>processedCount := processedCount c + 1, successCount := successCount c + 1\<rparr>,
                 written @ [Processed_template (processedCount c + 1) n (tname t) (tid t)], st1)"
  using assms by (simp add: settleTemplate_def)

lemma settleTemplate_facts:
  assumes "processTemplate env t dir st \<noteq> None"
  shows "\<exists>c' written' st'.
           settleTemplate env dir n t (c, written, st) = Some (c', written', st')
           \<and> processedCount c' = processedCount c + 1
           \<and> successCount c' + errorCount c' = successCount c + errorCount c + 1
           \<and> settled written' = settled written @ [tid t]
           \<and> length (error_lines written') + errorCount c
               = length (error_lines written) + errorCount c'"
proof -
  from assms obtain r st1 where p: "processTemplate env t dir st = Some (r, st1)"
    by (cases "processTemplate env t dir st") auto
  show ?thesis
  proof (cases r)
    case (Inl m)
    with p show ?thesis by (simp add: settleTemplate_raised)
  next
    case (Inr b)
    with p show ?thesis by (simp add: settleTemplate_processed)
  qed
qed

lemma settleAll_facts:
  assumes "\<And>t st. t \<in> set ts \<Longrightarrow> processTemplate env t dir st \<noteq> None"
  shows "\<exists>c' written' st'.
           settleAll env dir n ts (c, written, st) = Some (c', written', st')
           \<and> processedCount c' = processedCount c + length ts
           \<and> successCount c' + errorCount c' = successCount c + errorCount c + length ts
           \<and> settled written' = settled written @ map tid ts
           \<and> length (error_lines written') + errorCount c
               = length (error_lines written) + errorCount c'"
  using assms
proof (induction ts arbitrary: c written st)
  case Nil
  show ?case by simp
next
  case (Cons t ts)
  have "processTemplate env t dir st \<noteq> None" using Cons.prems by simp
  from settleTemplate_facts [OF this, where n = n and c = c and written = written]
  obtain c1 w1 st1 where one: "settleTemplate env dir n t (c, written, st) = Some (c1, w1, st1)"
    and f1: "processedCount c1 = processedCount c + 1"
      "successCount c1 + errorCount c1 = successCount c + errorCount c + 1"
      "settled w1 = settled written @ [tid t]"
      "length (error_lines w1) + errorCount c = length (error_lines written) + errorCount c1"
    by blast
  have "\<And>t st. t \<in> set ts \<Longrightarrow> processTemplate env t dir st \<noteq> None"
    using Cons.prems by simp
  from Cons.IH [OF this, where c = c1 and written = w1 and st = st1]
  obtain c' w' st' where rest: "settleAll env dir n ts (c1, w1, st1) = Some (c', w', st')"
    and f2: "processedCount c' = processedCount c1 + length ts"
      "successCount c' + errorCount c' = successCount c1 + errorCount c1 + length ts"
      "settled w' = settled w1 @ map tid ts"
      "length (error_lines w') + errorCount c1 = length (error_lines w1) + errorCount c'"
    by blast
  have "settleAll env dir n (t # ts) (c, written, st) = Some (c', w', st')"
    using one rest by simp
  with f1 f2 show ?case by simp
qed

lemma exportBatches_facts:
  assumes settles: "\<And>t st. t \<in> set allTemplates \<Longrightarrow> processTemplate env t dir st \<noteq> None"
    and order: "\<And>batch. mset (settle_order env batch) = mset batch"
  shows "\<exists>c' written' st'.
           exportBatches env dir allTemplates i (c, written, st) = Some (c', written', st')
           \<and> processedCount c' = processedCount c + (length allTemplates - i)
           \<and> successCount c' + errorCount c'
               = successCount c + errorCount c + (length allTemplates - i)
           \<and> mset (settled written') = mset (settled written) + mset (map tid (drop i allTemplates))
           \<and> length (error_lines written') + errorCount c
               = length (error_lines written) + errorCount c'"
proof (induction "length allTemplates - i" arbitrary: i c written st rule: less_induct)
  case less
  show ?case
  proof (cases "i < length allTemplates")
    case False
    then show ?thesis by (subst exportBatches.simps) simp
  next
    case True
    define batch where "batch = take BATCH_SIZE (drop i allTemplates)"
    define written1 where "written1 = written
        @ [Processing_batch (i div BATCH_SIZE + 1)
             ((length allTemplates + BATCH_SIZE - 1) div BATCH_SIZE) (i + 1)
             (min (i + BATCH_SIZE) (length allTemplates))]"
    have sub: "set (settle_order env batch) \<subseteq> set allTemplates"
    proof -
      have "set (settle_order env batch) = set batch"
        using order [of batch] by (rule mset_eq_setD)
      also have "\<dots> \<subseteq> set allTemplates"
        unfolding batch_def by (meson order_trans set_drop_subset set_take_subset)
      finally show ?thesis .
    qed
    have len: "length (settle_order env batch) = length batch"
      using order [of batch] by (rule mset_eq_length)
    have ids: "mset (map tid (settle_order env batch)) = mset (map tid batch)"
      using order [of batch] by (metis mset_map)
    have pt: "\<And>t st. t \<in> set (settle_order env batch) \<Longrightarrow> processTemplate env t dir st \<noteq> None"
      using sub settles by blast
    have "\<exists>c' written' st'.
           settleAll env dir (length allTemplates) (settle_order env batch) (c, written1, st)
             = Some (c', written', st')
           \<and> processedCount c' = processedCount c + length (settle_order env batch)
           \<and> successCount c' + errorCount c'
               = successCount c + errorCount c + length (settle_order env batch)
           \<and> settled written' = settled written1 @ map tid (settle_order env batch)
           \<and> length (error_lines written') + errorCount c
               = length (error_lines written1) + errorCount c'"
      by (rule settleAll_facts) (rule pt)
    then obtain c1 w2 st1 where
      sa: "settleAll env dir (length allTemplates) (settle_order env batch) (c, written1, st)
           = Some (c1, w2, st1)"
      and f1: "processedCount c1 = processedCount c + length batch"
        "successCount c1 + errorCount c1 = successCount c + errorCount c + length batch"
        "settled w2 = settled written1 @ map tid (settle_order env batch)"
        "length (error_lines w2) + errorCount c = length (error_lines written1) + errorCount c1"
      unfolding len by blast
    define w3 where "w3 = (if (i div BATCH_SIZE + 1) mod 5 = 0 \<or> i + BATCH_SIZE \<ge> length allTemplates
        then w2 @ [Progress_bar (processedCount c1) (length allTemplates),
                   Progress_summary (processedCount c1) (length allTemplates)
                     (successCount c1) (errorCount c1)]
        else w2)"
    have step: "exportBatches env dir allTemplates i (c, written, st)
                = exportBatches env dir allTemplates (i + BATCH_SIZE) (c1, w3, st1)"
      using True sa unfolding w3_def written1_def batch_def
      by (subst exportBatches.simps) (simp add: Let_def)
    have "length allTemplates - (i + BATCH_SIZE) < length allTemplates - i"
      using True by (simp add: BATCH_SIZE_def)
    from less [OF this, where c = c1 and written = w3 and st = st1]
    obtain c' w' st' where
      r: "exportBatches env dir allTemplates (i + BATCH_SIZE) (c1, w3, st1) = Some (c', w', st')"
      and f2: "processedCount c' = processedCount c1 + (length allTemplates - (i + BATCH_SIZE))"
        "successCount c' + errorCount c'
           = successCount c1 + errorCount c1 + (length allTemplates - (i + BATCH_SIZE))"
        "mset (settled w') = mset (settled w3) + mset (map tid (drop (i + BATCH_SIZE) allTemplates))"
        "length (error_lines w') + errorCount c1 = length (error_lines w3) + errorCount c'"
      by blast
    have lb: "length batch + (length allTemplates - (i + BATCH_SIZE)) = length allTemplates - i"
      using True by (simp add: batch_def min_def)
    have s3: "settled w3 = settled written @ map tid (settle_order env batch)"
      using f1(3) by (simp add: w3_def written1_def)
    have e3: "error_lines w3 = error_lines w2" "error_lines written1 = error_lines written"
      by (simp_all add: w3_def written1_def)
    have "take BATCH_SIZE (drop i allTemplates) @ drop BATCH_SIZE (drop i allTemplates)
          = drop i allTemplates"
      by (rule append_take_drop_id)
    then have "drop i allTemplates = batch @ drop (i + BATCH_SIZE) allTemplates"
      unfolding batch_def by (simp add: add.commute)
    then have "mset (map tid (drop i allTemplates))
        = mset (map tid batch) + mset (map tid (drop (i + BATCH_SIZE) allTemplates))"
      by simp
    with f2(3) s3 ids
    have m: "mset (settled w') = mset (settled written) + mset (map tid (drop i allTemplates))"
      by simp
    from f1 f2 lb e3
    have "processedCount c' = processedCount c + (length allTemplates - i)"
      "successCount c' + errorCount c' = successCount c + errorCount c + (length allTemplates - i)"
      "length (error_lines w') + errorCount c = length (error_lines written) + errorCount c'"
      by simp_all
    with step r m show ?thesis by simp
  qed
qed

lemma settleTemplate_keeps:
  assumes "settleTemplate env dir n t (c, written, st) = Some (c', written', st')"
  shows "set written \<subseteq> set written'"
proof -
  from assms obtain r st1 where p: "processTemplate env t dir st = Some (r, st1)"
    by (cases "processTemplate env t dir st") (auto simp: settleTemplate_def)
  show ?thesis
  proof (cases r)
    case (Inl m)
    with p assms show ?thesis by (auto simp: settleTemplate_raised)
  next
    case (Inr b)
    with p assms show ?thesis by (auto simp: settleTemplate_processed)
  qed
qed

lemma settleAll_keeps:
  "settleAll env dir n ts (c, written, st) = Some (c', written', st')
   \<Longrightarrow> set written \<subseteq> set written'"
proof (induction ts arbitrary: c written st)
  case Nil
  then show ?case by simp
next
  case (Cons t ts)
  from Cons.prems obtain c1 w1 st1 where
    one: "settleTemplate env dir n t (c, written, st) = Some (c1, w1, st1)"
    and rest: "settleAll env dir n ts (c1, w1, st1) = Some (c', written', st')"
    by (cases "settleTemplate env dir n t (c, written, st)") auto
  from settleTemplate_keeps [OF one] Cons.IH [OF rest] show ?case by blast
qed

lemma settleAll_raiser:
  assumes raise: "\<And>st. \<exists>m st1. processTemplate env t dir st = Some (Inl m, st1)"
  shows "t \<in> set ts \<Longrightarrow> settleAll env dir n ts (c, written, st) = Some (c', written', st')
         \<Longrightarrow> \<exists>m st0 st1. processTemplate env t dir st0 = Some (Inl m, st1)
                \<and> Error_processing (tid t) (tname t) m \<in> set written'"
proof (induction ts arbitrary: c written st)
  case Nil
  then show ?case by simp
next
  case (Cons u ts)
  from Cons.prems(2) obtain c1 w1 st1 where
    one: "settleTemplate env dir n u (c, written, st) = Some (c1, w1, st1)"
    and rest: "settleAll env dir n ts (c1, w1, st1) = Some (c', written', st')"
    by (cases "settleTemplate env dir n u (c, written, st)") auto
  show ?case
  proof (cases "u = t")
    case True
    from raise [of st] obtain m st2 where p: "processTemplate env t dir st = Some (Inl m, st2)"
      by blast
    from settleTemplate_raised [OF this, of n c written] one True
    have "Error_processing (tid t) (tname t) m \<in> set w1" by auto
    with settleAll_keeps [OF rest] p show ?thesis by blast
  next
    case False
    with Cons.prems(1) have "t \<in> set ts" by simp
    from Cons.IH [OF this rest] show ?thesis .
  qed
qed

lemma exportBatches_step:
  assumes "i < length allTemplates"
    and "exportBatches env dir allTemplates i (c, written, st) = Some (c', written', st')"
  shows "\<exists>c1 w2 st1 w3.
           settleAll env dir (length allTemplates)
             (settle_order env (take BATCH_SIZE (drop i allTemplates)))
             (c, written @ [Processing_batch (i div BATCH_SIZE + 1)
                    ((length allTemplates + BATCH_SIZE - 1) div BATCH_SIZE) (i + 1)
                    (min (i + BATCH_SIZE) (length allTemplates))], st)
             = Some (c1, w2, st1)
           \<and> set w2 \<subseteq> set w3
           \<and> exportBatches env dir allTemplates (i + BATCH_SIZE) (c1, w3, st1)
               = Some (c', written', st')"
proof -
  let ?w1 = "written @ [Processing_batch (i div BATCH_SIZE + 1)
                    ((length allTemplates + BATCH_SIZE - 1) div BATCH_SIZE) (i + 1)
                    (min (i + BATCH_SIZE) (length allTemplates))]"
  let ?sa = "settleAll env dir (length allTemplates)
             (settle_order env (take BATCH_SIZE (drop i allTemplates))) (c, ?w1, st)"
  have ne: "?sa \<noteq> None"
  proof
    assume "?sa = None"
    with assms(1) have "exportBatches env dir allTemplates i (c, written, st) = None"
      by (subst exportBatches.simps) (simp add: Let_def)
    with assms(2) show False by simp
  qed
  then obtain c1 w2 st1 where sa: "?sa = Some (c1, w2, st1)"
    by (cases ?sa) auto
  define w3 where "w3 = (if (i div BATCH_SIZE + 1) mod 5 = 0 \<or> i + BATCH_SIZE \<ge> length allTemplates
        then w2 @ [Progress_bar (processedCount c1) (length allTemplates),
                   Progress_summary (processedCount c1) (length allTemplates)
                     (successCount c1) (errorCount c1)]
        else w2)"
  have "exportBatches env dir allTemplates i (c, written, st)
        = exportBatches env dir allTemplates (i + BATCH_SIZE) (c1, w3, st1)"
    using assms(1) sa unfolding w3_def
    by (subst exportBatches.simps) (simp add: Let_def)
  with assms(2) have "exportBatches env dir allTemplates (i + BATCH_SIZE) (c1, w3, st1)
      = Some (c', written', st')" by simp
  moreover have "set w2 \<subseteq> set w3" by (auto simp: w3_def)
  ultimately show ?thesis using sa by blast
qed

lemma exportBatches_keeps:
  "exportBatches env dir allTemplates i (c, written, st) = Some (c', written', st')
   \<Longrightarrow> set written \<subseteq> set written'"
proof (induction "length allTemplates - i" arbitrary: i c written st rule: less_induct)
  case less
  show ?case
  proof (cases "i < length allTemplates")
    case False
    with less.prems show ?thesis by (subst (asm) exportBatches.simps) simp
  next
    case True
    from exportBatches_step [OF True less.prems]
    obtain c1 w2 st1 w3 where
      sa: "settleAll env dir (length allTemplates)
             (settle_order env (take BATCH_SIZE (drop i allTemplates)))
             (c, written @ [Processing_batch (i div BATCH_SIZE + 1)
                    ((length allTemplates + BATCH_SIZE - 1) div BATCH_SIZE) (i + 1)
                    (min (i + BATCH_SIZE) (length allTemplates))], st)
             = Some (c1, w2, st1)"
      and sub: "set w2 \<subseteq> set w3"
      and r: "exportBatches env dir allTemplates (i + BATCH_SIZE) (c1, w3, st1)
               = Some (c', written', st')"
      by blast
    have "length allTemplates - (i + BATCH_SIZE) < length allTemplates - i"
      using True by (simp add: BATCH_SIZE_def)
    from less.hyps [OF this r] have "set w3 \<subseteq> set written'" .
    moreover from settleAll_keeps [OF sa] have "set written \<subseteq> set w2" by simp
    ultimately show ?thesis using sub by blast
  qed
qed

lemma exportBatches_raiser:
  assumes raise: "\<And>st. \<exists>m st1. processTemplate env t dir st = Some (Inl m, st1)"
    and order: "\<And>batch. mset (settle_order env batch) = mset batch"
  shows "t \<in> set (drop i allTemplates)
         \<Longrightarrow> exportBatches env dir allTemplates i (c, written, st) = Some (c', written', st')
         \<Longrightarrow> \<exists>m st0 st1. processTemplate env t dir st0 = Some (Inl m, st1)
                \<and> Error_processing (tid t) (tname t) m \<in> set written'"
proof (induction "length allTemplates - i" arbitrary: i c written st rule: less_induct)
  case less
  have True: "i < length allTemplates"
  proof (rule ccontr)
    assume "\<not> i < length allTemplates"
    with less.prems(1) show False by simp
  qed
  from exportBatches_step [OF True less.prems(2)]
  obtain c1 w2 st1 w3 where
    sa: "settleAll env dir (length allTemplates)
           (settle_order env (take BATCH_SIZE (drop i allTemplates)))
           (c, written @ [Processing_batch (i div BATCH_SIZE + 1)
                  ((length allTemplates + BATCH_SIZE - 1) div BATCH_SIZE) (i + 1)
                  (min (i + BATCH_SIZE) (length allTemplates))], st)
           = Some (c1, w2, st1)"
    and sub: "set w2 \<subseteq> set w3"
    and r: "exportBatches env dir allTemplates (i + BATCH_SIZE) (c1, w3, st1)
             = Some (c', written', st')"
    by blast
  have "take BATCH_SIZE (drop i allTemplates) @ drop BATCH_SIZE (drop i allTemplates)
        = drop i allTemplates"
    by (rule append_take_drop_id)
  then have "drop i allTemplates
      = take BATCH_SIZE (drop i allTemplates) @ drop (i + BATCH_SIZE) allTemplates"
    by (simp add: add.commute)
  then have "set (drop i allTemplates)
      = set (take BATCH_SIZE (drop i allTemplates)) \<union> set (drop (i + BATCH_SIZE) allTemplates)"
    by (metis set_append)
  with less.prems(1)
  consider "t \<in> set (take BATCH_SIZE (drop i allTemplates))"
    | "t \<in> set (drop (i + BATCH_SIZE) allTemplates)"
    by blast
  then show ?case
  proof cases
    case 1
    have "set (settle_order env (take BATCH_SIZE (drop i allTemplates)))
          = set (take BATCH_SIZE (drop i allTemplates))"
      using order by (rule mset_eq_setD)
    with 1 have "t \<in> set (settle_order env (take BATCH_SIZE (drop i allTemplates)))" by simp
    from settleAll_raiser [OF raise this sa]
    obtain m st0 st2 where "processTemplate env t dir st0 = Some (Inl m, st2)"
      "Error_processing (tid t) (tname t) m \<in> set w2" by blast
    with sub exportBatches_keeps [OF r] show ?thesis by blast
  next
    case 2
    have "length allTemplates - (i + BATCH_SIZE) < length allTemplates - i"
      using True by (simp add: BATCH_SIZE_def)
    from less.hyps [OF this 2 r] show ?thesis .
  qed
qed

lemma processTemplate_settles:
  assumes "folder t = None
           \<or> (\<exists>f chain. folder t = Some f \<and> (folder_id f = 0 \<or> climbs env (folder_id f) chain))"
  shows "processTemplate env t dir st \<noteq> None"
proof -
  obtain s d where st: "st = (s, d)" by (cases st)
  let ?walk = "case folder t of
                 None \<Rightarrow> Some (Inr [], s)
               | Some f \<Rightarrow> if folder_id f = 0 then Some (Inr [], s)
                           else buildFolderPath env (Some (folder_id f)) s"
  have "\<exists>r. ?walk = Some r"
  proof (cases "folder t")
    case None
    then show ?thesis by simp
  next
    case (Some f)
    show ?thesis
    proof (cases "folder_id f = 0")
      case True
      with Some show ?thesis by simp
    next
      case False
      with assms Some obtain chain where "climbs env (folder_id f) chain" by auto
      from buildFolderPath_returns [OF this, of s] Some False show ?thesis by simp
    qed
  qed
  then obtain r s1 where w: "?walk = Some (r, s1)" by auto
  show ?thesis
    unfolding st processTemplate_def
    using w by (cases r) (auto simp: Let_def split: sum.splits intro: prod_cases3)
qed

lemmas route_defs =
  settleTemplate_def processTemplate_def saveContentOrError_def saveContent_def
  getCompleteEmailContent_def fetchContentJsonBackup_def getMarketoAccessToken_def
  cached_usable_def truthy_num_def TOKEN_EXPIRY_BUFFER_MS_def r_now_def invalid_email_id_def
  mkdirSync_def writeFileSync_def sanitizedName_def slash_join_def Let_def
  formatFolderPath_def

lemma bulk_env_run:
  "\<exists>s d. exportBatches bulk_env ''/exports/run'' five_templates 0 (counters0, [], session0, disk0)
            = Some (\<lparr>processedCount = 5, successCount = 4, errorCount = 1\<rparr>,
                    [Processing_batch 1 1 1 5,
                     Processed_template 1 5 ''Welcome'' ''1'',
                     Processed_template 2 5 ''Welcome'' ''2'',
                     Error_processing ''3'' ''Welcome'' ''Request failed with status code 404'',
                     Processed_template 4 5 ''Welcome'' ''4'',
                     Processed_template 5 5 ''Welcome'' ''5'',
                     Progress_bar 5 5,
                     Progress_summary 5 5 4 1], s, d)
          \<and> d_files d ''/exports/run/Welcome_3/error.txt''
              = Some (Contents ''Error retrieving HTML content: Request failed with status code 404'')"
  apply (subst exportBatches.simps)
  apply (simp add: five_templates_def BATCH_SIZE_def Let_def bulk_env_def route_env_at_def)
  apply (simp add: route_defs numbered_def template0_def counters0_def session0_def disk0_def
      good_identity_def)
  apply (subst exportBatches.simps)
  apply (simp add: length_five_templates BATCH_SIZE_def)
  done

lemma error_lines_member:
  "Error_processing i name m \<in> set ls \<Longrightarrow> Error_processing i name m \<in> set (error_lines ls)"
  by (induction ls rule: error_lines.induct) auto

lemma bulk_env_fields:
  "can_authenticate bulk_env"
  "truthy (MARKETO_REST_URL bulk_env)"
  "r_fs_error bulk_env = (\<lambda>_. None)"
  "full_content bulk_env ''3''
     = Failed \<lparr>err_message = ''Request failed with status code 500'', err_response = None\<rparr>"
  "content_json bulk_env ''3''
     = Failed \<lparr>err_message = ''Request failed with status code 404'', err_response = None\<rparr>"
  "settle_order bulk_env batch = batch"
  by (simp_all add: bulk_env_def route_env_at_def can_authenticate_def good_identity_def)

lemma bulk_env_raises:
  "\<exists>m st1. processTemplate bulk_env (numbered ''3'') dir st = Some (Inl m, st1)"
proof -
  obtain s d where st: "st = (s, d)" by (cases st)
  from getMarketoAccessToken_ok [OF bulk_env_fields(1), of s]
  obtain tok s1 where "getMarketoAccessToken bulk_env s = (Inr tok, s1)" by blast
  then show ?thesis
    unfolding st
    by (simp add: processTemplate_def saveContentOrError_def saveContent_def
        getCompleteEmailContent_def fetchContentJsonBackup_def invalid_email_id_def
        mkdirSync_def writeFileSync_def bulk_env_fields numbered_def template0_def Let_def)
qed

text \<open>
  Claim C7, as the code has it.  Library (\<^verbatim>\<open>exportAllTemplates\<close>): let the listing return the
  templates \<open>pre @ t # post\<close>, and let \<^verbatim>\<open>exportTemplate\<close> raise the error \<open>m\<close> for \<open>t\<close> in
  the state the loop has reached after \<open>pre\<close>.  Then the run still returns a result: its
  error list holds the entry \<open>{templateId = id of t, error = m}\<close> right after the entries
  recorded before, the failure counter has grown, every template has been counted once,
  and a directory has been requested for every template of the list, those after \<open>t\<close>
  included.  Route code (the batch loop of \<^verbatim>\<open>bulkExportTemplates\<close>): let the folder walk of
  every template end, let the callbacks of a batch settle one after the other, each
  template of the batch once, and let \<^verbatim>\<open>processTemplate\<close> raise for the template \<open>v\<close> of the
  list in whatever state it starts.  Then the loop ends after every template has been
  processed: the processed counter is the number of templates, the success and the error
  counter add up to it, the error counter is positive and is the number of error lines
  written, one of these lines names \<open>v\<close> (identifier, name and a message that
  \<^verbatim>\<open>processTemplate\<close> raises for \<open>v\<close>), and every template has exactly one line of its own.  The route code keeps no list of errors.
\<close>

theorem export_failure_isolated:
  assumes "getAllTemplates env w = Some (Inr (pre @ t # post), w0)"
    and "exportLoop env out pre
           (\<lparr>total = length (pre @ t # post), successful = 0, failed = 0, errors = []\<rparr>, w0)
         = (r1, w1)"
    and "exportTemplate env t out w1 = (Inl m, w2)"
    and walks: "\<And>u. u \<in> set allTemplates
                 \<Longrightarrow> folder u = None
                     \<or> (\<exists>f chain. folder u = Some f
                           \<and> (folder_id f = 0 \<or> climbs renv (folder_id f) chain))"
    and order: "\<And>batch. mset (settle_order renv batch) = mset batch"
    and member: "v \<in> set allTemplates"
    and raises: "\<And>st. \<exists>m' st1. processTemplate renv v exportDir st = Some (Inl m', st1)"
  shows "(\<exists>rf wf later. exportAllTemplates env out w = Some (Inr rf, wf)
           \<and> errors rf = errors r1 @ \<lparr>templateId = tid t, error = m\<rparr> # later
           \<and> failed r1 < failed rf
           \<and> successful rf + failed rf = length (pre @ t # post)
           \<and> mkdirs (trace wf)
               = mkdirs (trace w0)
                 @ map (\<lambda>t. path_join env out (''template_'' @ tid t)) (pre @ t # post))
       \<and> (\<exists>c written st'.
             exportBatches renv exportDir allTemplates 0
               (\<lparr>processedCount = 0, successCount = 0, errorCount = 0\<rparr>, [], st)
             = Some (c, written, st')
           \<and> processedCount c = length allTemplates
           \<and> successCount c + errorCount c = length allTemplates
           \<and> 0 < errorCount c
           \<and> errorCount c = length (error_lines written)
           \<and> (\<exists>m' st0 st1. processTemplate renv v exportDir st0 = Some (Inl m', st1)
                  \<and> Error_processing (tid v) (tname v) m' \<in> set written)
           \<and> mset (settled written) = mset (map tid allTemplates))"
proof -
  let ?ts = "pre @ t # post"
  let ?r0 = "\<lparr>total = length ?ts, successful = 0, failed = 0, errors = []\<rparr>"
  obtain r2 w3 where one: "exportOne env out t (r1, w1) = (r2, w3)"
    by (cases "exportOne env out t (r1, w1)")
  obtain rf wf where rest: "exportLoop env out post (r2, w3) = (rf, wf)"
    by (cases "exportLoop env out post (r2, w3)")
  have "exportLoop env out ?ts (?r0, w0) = exportLoop env out (t # post) (r1, w1)"
    using assms(2) by (simp only: exportLoop_append)
  with one rest have whole: "exportLoop env out ?ts (?r0, w0) = (rf, wf)"
    by simp
  have run: "exportAllTemplates env out w = Some (Inr rf, wf)"
    using exportAllTemplates_listed [OF assms(1), of out] whole by simp
  note raised = exportOne_raised [OF assms(3) one]
  note after = exportLoop_facts [OF rest]
  from after obtain later where "errors rf = errors r2 @ later" by blast
  with raised(1) have rec: "errors rf = errors r1 @ \<lparr>templateId = tid t, error = m\<rparr> # later"
    by simp
  from raised(2) after have cnt: "failed r1 < failed rf" by simp
  from exportLoop_facts [OF whole]
  have tot: "successful rf + failed rf = length ?ts"
    and dirs: "mkdirs (trace wf)
               = mkdirs (trace w0) @ map (\<lambda>t. path_join env out (''template_'' @ tid t)) ?ts"
    by simp_all
  from run rec cnt tot dirs
  have library: "\<exists>rf wf later. exportAllTemplates env out w = Some (Inr rf, wf)
           \<and> errors rf = errors r1 @ \<lparr>templateId = tid t, error = m\<rparr> # later
           \<and> failed r1 < failed rf
           \<and> successful rf + failed rf = length (pre @ t # post)
           \<and> mkdirs (trace wf)
               = mkdirs (trace w0)
                 @ map (\<lambda>t. path_join env out (''template_'' @ tid t)) (pre @ t # post)"
    by blast
  let ?c0 = "\<lparr>processedCount = 0, successCount = 0, errorCount = 0\<rparr>"
  have settles: "\<And>u st. u \<in> set allTemplates \<Longrightarrow> processTemplate renv u exportDir st \<noteq> None"
    using walks by (rule processTemplate_settles)
  have "\<exists>c' written' st'.
           exportBatches renv exportDir allTemplates 0 (?c0, [], st) = Some (c', written', st')
           \<and> processedCount c' = processedCount ?c0 + (length allTemplates - 0)
           \<and> successCount c' + errorCount c'
               = successCount ?c0 + errorCount ?c0 + (length allTemplates - 0)
           \<and> mset (settled written') = mset (settled []) + mset (map tid (drop 0 allTemplates))
           \<and> length (error_lines written') + errorCount ?c0
               = length (error_lines []) + errorCount c'"
    by (rule exportBatches_facts) (rule settles, assumption, rule order)
  then obtain c written st' where
    b: "exportBatches renv exportDir allTemplates 0 (?c0, [], st) = Some (c, written, st')"
    and f: "processedCount c = length allTemplates"
      "successCount c + errorCount c = length allTemplates"
      "mset (settled written) = mset (map tid allTemplates)"
      "length (error_lines written) = errorCount c"
    by auto
  from member have "v \<in> set (drop 0 allTemplates)" by simp
  from exportBatches_raiser [OF raises order this b]
  obtain m' st0 st1 where thrown: "processTemplate renv v exportDir st0 = Some (Inl m', st1)"
    and line: "Error_processing (tid v) (tname v) m' \<in> set written" by blast
  from error_lines_member [OF line] have "error_lines written \<noteq> []" by auto
  then have "0 < length (error_lines written)" by simp
  then have pos: "0 < errorCount c" by (simp only: f(4))
  from thrown line
  have named: "\<exists>m' st0 st1. processTemplate renv v exportDir st0 = Some (Inl m', st1)
                  \<and> Error_processing (tid v) (tname v) m' \<in> set written"
    by blast
  from b f(1,2,3) f(4) [symmetric] pos named
  have route: "\<exists>c written st'.
             exportBatches renv exportDir allTemplates 0 (?c0, [], st) = Some (c, written, st')
           \<and> processedCount c = length allTemplates
           \<and> successCount c + errorCount c = length allTemplates
           \<and> 0 < errorCount c
           \<and> errorCount c = length (error_lines written)
           \<and> (\<exists>m' st0 st1. processTemplate renv v exportDir st0 = Some (Inl m', st1)
                  \<and> Error_processing (tid v) (tname v) m' \<in> set written)
           \<and> mset (settled written) = mset (map tid allTemplates)"
    by blast
  from library route show ?thesis by (rule conjI)
qed

theorem export_failure_isolated_witness:
  "(\<exists>wf. exportAllTemplates refusing_env ''out'' client0
          = Some (Inr \<lparr>total = 5, successful = 4, failed = 1,
                       errors = [\<lparr>templateId = ''3'', error = ''EACCES: permission denied''\<rparr>]\<rparr>, wf)
        \<and> mkdirs (trace wf)
            = [''out/template_1'', ''out/template_2'', ''out/template_3'', ''out/template_4'',
               ''out/template_5''])
   \<and> (\<exists>written st'.
         exportBatches bulk_env ''/exports/run'' five_templates 0 (counters0, [], session0, disk0)
         = Some (\<lparr>processedCount = 5, successCount = 4, errorCount = 1\<rparr>, written, st')
       \<and> error_lines written
           = [Error_processing ''3'' ''Welcome'' ''Request failed with status code 404'']
       \<and> mset (settled written) = mset [''1'', ''2'', ''3'', ''4'', ''5''])"
proof -
  let ?pre = "[numbered ''1'', numbered ''2'']"
  let ?post = "[numbered ''4'', numbered ''5'']"
  let ?r0 = "\<lparr>total = length (?pre @ numbered ''3'' # ?post), successful = 0, failed = 0, errors = []\<rparr>"
  have l: "getAllTemplates refusing_env client0 = Some (Inr (?pre @ numbered ''3'' # ?post), listed)"
    using refusing_env_lists by (simp add: five_templates_def)
  obtain r1 w1 where p: "exportLoop refusing_env ''out'' ?pre (?r0, listed) = (r1, w1)"
    by (cases "exportLoop refusing_env ''out'' ?pre (?r0, listed)")
  have "fs_error refusing_env (path_join refusing_env ''out'' (''template_'' @ tid (numbered ''3'')))
        = Some ''EACCES: permission denied''"
    by (simp add: refusing_env_def slash_join_def numbered_def)
  note x = exportTemplate_refused [OF this, of w1]
  have walks: "\<And>u. u \<in> set five_templates
                 \<Longrightarrow> folder u = None
                     \<or> (\<exists>f chain. folder u = Some f
                           \<and> (folder_id f = 0 \<or> climbs bulk_env (folder_id f) chain))"
    by (auto simp: five_templates_def numbered_def template0_def)
  have order: "\<And>batch. mset (settle_order bulk_env batch) = mset batch"
    by (simp add: bulk_env_fields)
  have member: "numbered ''3'' \<in> set five_templates"
    by (simp add: five_templates_def)
  note all = export_failure_isolated [OF l p x walks order member bulk_env_raises,
      where exportDir = "''/exports/run''" and st = "(session0, disk0)"]
  from all obtain rf wf later where run: "exportAllTemplates refusing_env ''out'' client0 = Some (Inr rf, wf)"
    and dirs: "mkdirs (trace wf) = mkdirs (trace listed)
        @ map (\<lambda>t. path_join refusing_env ''out'' (''template_'' @ tid t)) (?pre @ numbered ''3'' # ?post)"
    by blast
  from run exportAllTemplates_listed [OF refusing_env_lists, of "''out''"] refusing_env_run
  have "rf = \<lparr>total = 5, successful = 4, failed = 1,
               errors = [\<lparr>templateId = ''3'', error = ''EACCES: permission denied''\<rparr>]\<rparr>"
    by (simp add: length_five_templates)
  moreover from dirs have "mkdirs (trace wf)
      = [''out/template_1'', ''out/template_2'', ''out/template_3'', ''out/template_4'',
         ''out/template_5'']"
    by (simp add: listed_def refusing_env_def slash_join_def numbered_def)
  ultimately have library: "\<exists>wf. exportAllTemplates refusing_env ''out'' client0
          = Some (Inr \<lparr>total = 5, successful = 4, failed = 1,
                       errors = [\<lparr>templateId = ''3'', error = ''EACCES: permission denied''\<rparr>]\<rparr>, wf)
        \<and> mkdirs (trace wf)
            = [''out/template_1'', ''out/template_2'', ''out/template_3'', ''out/template_4'',
               ''out/template_5'']"
    using run by blast
  from all obtain c written st' where
    b: "exportBatches bulk_env ''/exports/run'' five_templates 0 (counters0, [], session0, disk0)
        = Some (c, written, st')"
    and f: "processedCount c = length five_templates"
      "successCount c + errorCount c = length five_templates"
      "errorCount c = length (error_lines written)"
      "mset (settled written) = mset (map tid five_templates)"
    unfolding counters0_def by blast
  from bulk_env_run b
  have e: "c = \<lparr>processedCount = 5, successCount = 4, errorCount = 1\<rparr>"
    "error_lines written = [Error_processing ''3'' ''Welcome'' ''Request failed with status code 404'']"
    by auto
  from f(4) have "mset (settled written) = mset [''1'', ''2'', ''3'', ''4'', ''5'']"
    by (simp add: five_templates_def numbered_def)
  with b e have route: "\<exists>written st'.
         exportBatches bulk_env ''/exports/run'' five_templates 0 (counters0, [], session0, disk0)
         = Some (\<lparr>processedCount = 5, successCount = 4, errorCount = 1\<rparr>, written, st')
       \<and> error_lines written
           = [Error_processing ''3'' ''Welcome'' ''Request failed with status code 404'']
       \<and> mset (settled written) = mset [''1'', ''2'', ''3'', ''4'', ''5'']"
    by blast
  from library route show ?thesis by (rule conjI)
qed

text \<open>
  Claim C7 as stated fails for the route code.  The run over five templates, the third
  of which cannot be fetched, ends with three counters (5 processed, 4 successful,
  1 failed), the lines written to the response and the marker \<^verbatim>\<open>error.txt\<close>: the failure is
  recorded in the error counter and in one line of the response, not in a list of
  \<open>{itemId, message}\<close> entries.
\<close>

theorem bulk_export_keeps_no_error_list:
  "(case exportBatches bulk_env ''/exports/run'' five_templates 0 (counters0, [], session0, disk0) of
      Some (c, written, s, d) \<Rightarrow>
        c = \<lparr>processedCount = 5, successCount = 4, errorCount = 1\<rparr>
        \<and> written
            = [Processing_batch 1 1 1 5,
               Processed_template 1 5 ''Welcome'' ''1'',
               Processed_template 2 5 ''Welcome'' ''2'',
               Error_processing ''3'' ''Welcome'' ''Request failed with status code 404'',
               Processed_template 4 5 ''Welcome'' ''4'',
               Processed_template 5 5 ''Welcome'' ''5'',
               Progress_bar 5 5,
               Progress_summary 5 5 4 1]
        \<and> d_files d ''/exports/run/Welcome_3/error.txt''
            = Some (Contents ''Error retrieving HTML content: Request failed with status code 404'')
    | None \<Rightarrow> False)"
  using bulk_env_run by auto

end
